theory Spec2Isabelle
  imports Main "HOL-Library.Word" "HOL-Library.Monad_Syntax" "HOL-Library.Sublist"
begin

unbundle bit_operations_syntax

section \<open>The Windows console screen driver (console\_win.go)\<close>

text \<open>
  A shallow embedding of the console screen driver: the input decoder, the style
  translator, the renderer, the cursor and geometry operations and the lifecycle.
  Go's \<open>int\<close> values that are only compared and incremented are \<open>int\<close>; the fixed-width
  fields of the console records are words. A Go string that is written to the console is a
  list of code points (what \<open>[]rune(s)\<close> yields). A panic is the value \<open>None\<close>.
\<close>

subsection \<open>Keys, modifiers, buttons and events\<close>

type_synonym rune = int

text \<open>
  Modelled from the spec: the key constants (key package, not among the sources at hand).
  Only their being distinct matters; \<open>KeyCode n\<close> is a key written as the number \<open>n\<close>
  (the table \<open>vkKeys\<close> maps the space bar to \<open>' '\<close>).
\<close>

datatype Key =
    KeyNUL | KeyCancel | KeyBackspace | KeyTab | KeyBacktab | KeyClear | KeyPause | KeyPrint
  | KeyPgUp | KeyPgDn | KeyEnter | KeyEnd | KeyHome | KeyLeft | KeyUp | KeyRight | KeyDown
  | KeyInsert | KeyDelete | KeyHelp | KeyEscape | KeyRune
  | KeyF1 | KeyF2 | KeyF3 | KeyF4 | KeyF5 | KeyF6 | KeyF7 | KeyF8 | KeyF9 | KeyF10
  | KeyF11 | KeyF12 | KeyF13 | KeyF14 | KeyF15 | KeyF16 | KeyF17 | KeyF18 | KeyF19
  | KeyF20 | KeyF21 | KeyF22 | KeyF23 | KeyF24
  | KeyCode int

type_synonym ModMask = "16 word"

text \<open>
  Modelled from the spec: the modifier bits (key package, not among the sources at hand):
  distinct single bits, and \<open>ModNone\<close> the empty mask.
\<close>

definition ModShift :: ModMask where "ModShift = 1"
definition ModCtrl :: ModMask where "ModCtrl = 2"
definition ModAlt :: ModMask where "ModAlt = 4"
definition ModNone :: ModMask where "ModNone = 0"

type_synonym ButtonMask = "16 word"

text \<open>
  Modelled from the spec: the button bits (mouse package, not among the sources at hand):
  bits 0..7 are \<open>Button1\<close>..\<open>Button8\<close>, then the four wheel directions.
\<close>

definition Button1 :: ButtonMask where "Button1 = 0x1"
definition Button2 :: ButtonMask where "Button2 = 0x2"
definition Button3 :: ButtonMask where "Button3 = 0x4"
definition Button4 :: ButtonMask where "Button4 = 0x8"
definition Button5 :: ButtonMask where "Button5 = 0x10"
definition Button6 :: ButtonMask where "Button6 = 0x20"
definition Button7 :: ButtonMask where "Button7 = 0x40"
definition Button8 :: ButtonMask where "Button8 = 0x80"
definition WheelUp :: ButtonMask where "WheelUp = 0x100"
definition WheelDown :: ButtonMask where "WheelDown = 0x200"
definition WheelLeft :: ButtonMask where "WheelLeft = 0x400"
definition WheelRight :: ButtonMask where "WheelRight = 0x800"
definition ButtonNone :: ButtonMask where "ButtonNone = 0"

text \<open>
  Modelled from the spec: the event constructors (event types, not among the sources at
  hand). An event is the constructor applied to the arguments the driver passes; what a
  constructor makes of its arguments is not part of the model.
\<close>

datatype Event =
    NewEventKey Key rune ModMask
  | NewEventMouse int int ButtonMask ModMask
  | NewEventResize int int
  | NewEventFocus bool

subsection \<open>Input records\<close>

record inputRecord =
  rtyp :: "16 word"
  data :: "8 word list"

definition keyEvent :: "16 word" where "keyEvent = 1"
definition mouseEvent :: "16 word" where "mouseEvent = 2"
definition resizeEvent :: "16 word" where "resizeEvent = 4"
definition menuEvent :: "16 word" where "menuEvent = 8"
definition focusEvent :: "16 word" where "focusEvent = 16"

record mouseRecord =
  mr_x :: "16 word"
  mr_y :: "16 word"
  btns :: "32 word"
  mr_mod :: "32 word"
  flags :: "32 word"

definition mouseHWheeled :: "32 word" where "mouseHWheeled = 0x8"
definition mouseVWheeled :: "32 word" where "mouseVWheeled = 0x4"

record keyRecord =
  isdown :: "32 word"
  repeat :: "16 word"
  kcode :: "16 word"
  scode :: "16 word"
  ch :: "16 word"
  kr_mod :: "32 word"

definition vkCancel :: "16 word" where "vkCancel = 0x03"
definition vkBack :: "16 word" where "vkBack = 0x08"
definition vkTab :: "16 word" where "vkTab = 0x09"
definition vkClear :: "16 word" where "vkClear = 0x0c"
definition vkReturn :: "16 word" where "vkReturn = 0x0d"
definition vkPause :: "16 word" where "vkPause = 0x13"
definition vkEscape :: "16 word" where "vkEscape = 0x1b"
definition vkSpace :: "16 word" where "vkSpace = 0x20"
definition vkPrior :: "16 word" where "vkPrior = 0x21"
definition vkNext :: "16 word" where "vkNext = 0x22"
definition vkEnd :: "16 word" where "vkEnd = 0x23"
definition vkHome :: "16 word" where "vkHome = 0x24"
definition vkLeft :: "16 word" where "vkLeft = 0x25"
definition vkUp :: "16 word" where "vkUp = 0x26"
definition vkRight :: "16 word" where "vkRight = 0x27"
definition vkDown :: "16 word" where "vkDown = 0x28"
definition vkPrint :: "16 word" where "vkPrint = 0x2a"
definition vkPrtScr :: "16 word" where "vkPrtScr = 0x2c"
definition vkInsert :: "16 word" where "vkInsert = 0x2d"
definition vkDelete :: "16 word" where "vkDelete = 0x2e"
definition vkHelp :: "16 word" where "vkHelp = 0x2f"
definition vkF1 :: "16 word" where "vkF1 = 0x70"
definition vkF2 :: "16 word" where "vkF2 = 0x71"
definition vkF3 :: "16 word" where "vkF3 = 0x72"
definition vkF4 :: "16 word" where "vkF4 = 0x73"
definition vkF5 :: "16 word" where "vkF5 = 0x74"
definition vkF6 :: "16 word" where "vkF6 = 0x75"
definition vkF7 :: "16 word" where "vkF7 = 0x76"
definition vkF8 :: "16 word" where "vkF8 = 0x77"
definition vkF9 :: "16 word" where "vkF9 = 0x78"
definition vkF10 :: "16 word" where "vkF10 = 0x79"
definition vkF11 :: "16 word" where "vkF11 = 0x7a"
definition vkF12 :: "16 word" where "vkF12 = 0x7b"
definition vkF13 :: "16 word" where "vkF13 = 0x7c"
definition vkF14 :: "16 word" where "vkF14 = 0x7d"
definition vkF15 :: "16 word" where "vkF15 = 0x7e"
definition vkF16 :: "16 word" where "vkF16 = 0x7f"
definition vkF17 :: "16 word" where "vkF17 = 0x80"
definition vkF18 :: "16 word" where "vkF18 = 0x81"
definition vkF19 :: "16 word" where "vkF19 = 0x82"
definition vkF20 :: "16 word" where "vkF20 = 0x83"
definition vkF21 :: "16 word" where "vkF21 = 0x84"
definition vkF22 :: "16 word" where "vkF22 = 0x85"
definition vkF23 :: "16 word" where "vkF23 = 0x86"
definition vkF24 :: "16 word" where "vkF24 = 0x87"

lemmas vk_defs =
  vkCancel_def vkBack_def vkTab_def vkClear_def vkReturn_def vkPause_def vkEscape_def
  vkSpace_def vkPrior_def vkNext_def vkEnd_def vkHome_def vkLeft_def vkUp_def vkRight_def
  vkDown_def vkPrint_def vkPrtScr_def vkInsert_def vkDelete_def vkHelp_def
  vkF1_def vkF2_def vkF3_def vkF4_def vkF5_def vkF6_def vkF7_def vkF8_def vkF9_def
  vkF10_def vkF11_def vkF12_def vkF13_def vkF14_def vkF15_def vkF16_def vkF17_def
  vkF18_def vkF19_def vkF20_def vkF21_def vkF22_def vkF23_def vkF24_def

text \<open>The table \<open>vkKeys\<close>: a Go map literal, read with the two-value lookup.\<close>

definition vkKeys :: "16 word \<rightharpoonup> Key" where
  "vkKeys = map_of
    [(vkCancel, KeyCancel), (vkBack, KeyBackspace), (vkTab, KeyTab), (vkClear, KeyClear),
     (vkPause, KeyPause), (vkPrint, KeyPrint), (vkPrtScr, KeyPrint), (vkPrior, KeyPgUp),
     (vkNext, KeyPgDn), (vkReturn, KeyEnter), (vkEnd, KeyEnd), (vkHome, KeyHome),
     (vkLeft, KeyLeft), (vkUp, KeyUp), (vkRight, KeyRight), (vkDown, KeyDown),
     (vkInsert, KeyInsert), (vkDelete, KeyDelete), (vkHelp, KeyHelp), (vkEscape, KeyEscape),
     (vkSpace, KeyCode 32),
     (vkF1, KeyF1), (vkF2, KeyF2), (vkF3, KeyF3), (vkF4, KeyF4), (vkF5, KeyF5),
     (vkF6, KeyF6), (vkF7, KeyF7), (vkF8, KeyF8), (vkF9, KeyF9), (vkF10, KeyF10),
     (vkF11, KeyF11), (vkF12, KeyF12), (vkF13, KeyF13), (vkF14, KeyF14), (vkF15, KeyF15),
     (vkF16, KeyF16), (vkF17, KeyF17), (vkF18, KeyF18), (vkF19, KeyF19), (vkF20, KeyF20),
     (vkF21, KeyF21), (vkF22, KeyF22), (vkF23, KeyF23), (vkF24, KeyF24)]"

text \<open>
  Little-endian reads of the record's 16 data bytes. The slice \<open>rec.data[n:]\<close> is
  \<open>drop n\<close>; the array has 16 bytes, so the reads the decoder makes are in range.
\<close>

definition getu32 :: "8 word list \<Rightarrow> 32 word" where
  "getu32 v = ucast (v ! 0) + push_bit 8 (ucast (v ! 1)) + push_bit 16 (ucast (v ! 2))
              + push_bit 24 (ucast (v ! 3))"

definition geti32 :: "8 word list \<Rightarrow> 32 word" where
  "geti32 v = getu32 v"

definition getu16 :: "8 word list \<Rightarrow> 16 word" where
  "getu16 v = ucast (v ! 0) + push_bit 8 (ucast (v ! 1))"

definition geti16 :: "8 word list \<Rightarrow> 16 word" where
  "geti16 v = getu16 v"

text \<open>Convert the Windows control-key state to a modifier mask.\<close>

definition mod2mask :: "32 word \<Rightarrow> ModMask" where
  "mod2mask cks =
    (let mm = ModNone;
         ctrl = (cks AND (0x0008 OR 0x0004) \<noteq> 0);
         alt = (cks AND (0x0002 OR 0x0001) \<noteq> 0);
         mm = (if \<not> (ctrl \<and> alt)
               then (let mm = (if ctrl then mm OR ModCtrl else mm)
                     in (if alt then mm OR ModAlt else mm))
               else mm);
         mm = (if cks AND 0x0010 \<noteq> 0 then mm OR ModShift else mm)
     in mm)"

definition mrec2btns :: "32 word \<Rightarrow> 32 word \<Rightarrow> ButtonMask" where
  "mrec2btns mbtns flgs =
    (let b = ButtonNone;
         b = (if mbtns AND 0x1 \<noteq> 0 then b OR Button1 else b);
         b = (if mbtns AND 0x2 \<noteq> 0 then b OR Button2 else b);
         b = (if mbtns AND 0x4 \<noteq> 0 then b OR Button3 else b);
         b = (if mbtns AND 0x8 \<noteq> 0 then b OR Button4 else b);
         b = (if mbtns AND 0x10 \<noteq> 0 then b OR Button5 else b);
         b = (if mbtns AND 0x20 \<noteq> 0 then b OR Button6 else b);
         b = (if mbtns AND 0x40 \<noteq> 0 then b OR Button7 else b);
         b = (if mbtns AND 0x80 \<noteq> 0 then b OR Button8 else b);
         b = (if flgs AND mouseVWheeled \<noteq> 0
              then (if mbtns AND 0x80000000 = 0 then b OR WheelUp else b OR WheelDown)
              else b);
         b = (if flgs AND mouseHWheeled \<noteq> 0
              then (if mbtns AND 0x80000000 = 0 then b OR WheelRight else b OR WheelLeft)
              else b)
     in b)"

text \<open>
  The loop \<open>for krec.repeat > 0 { postEvent(ev); krec.repeat-- }\<close>: the events handed
  to \<open>postEvent\<close>, in order. The event of one iteration depends on the record's other
  fields only, which the loop does not change.
\<close>

function post_repeat :: "16 word \<Rightarrow> Event \<Rightarrow> Event list" where
  "post_repeat n ev = (if n > 0 then ev # post_repeat (n - 1) ev else [])"
  by pat_completeness auto
termination
  by (relation "measure (\<lambda>(n, ev). unat n)")
     (auto simp: unat_minus_one word_greater_zero_iff unat_gt_0)

declare post_repeat.simps [simp del]

text \<open>
  The key branch of \<open>getConsoleInput\<close>, after the record's fields have been read: the
  events posted for one key record.
\<close>

definition keyEvents :: "keyRecord \<Rightarrow> Event list" where
  "keyEvents krec =
    (if isdown krec = 0 \<or> repeat krec < 1 then []
     else if ch krec \<noteq> 0 then
       post_repeat (repeat krec)
         (if mod2mask (kr_mod krec) = ModShift \<and> ch krec = vkTab
          then NewEventKey KeyBacktab 0 ModNone
          else NewEventKey KeyRune (uint (ch krec)) (mod2mask (kr_mod krec)))
     else (case vkKeys (kcode krec) of
             None \<Rightarrow> []
           | Some key \<Rightarrow>
               post_repeat (repeat krec)
                 (NewEventKey key (uint (ch krec)) (mod2mask (kr_mod krec)))))"

definition parseKey :: "8 word list \<Rightarrow> keyRecord" where
  "parseKey d = \<lparr> isdown = geti32 (drop 0 d), repeat = getu16 (drop 4 d),
                  kcode = getu16 (drop 6 d), scode = getu16 (drop 8 d),
                  ch = getu16 (drop 10 d), kr_mod = getu32 (drop 12 d) \<rparr>"

definition parseMouse :: "8 word list \<Rightarrow> mouseRecord" where
  "parseMouse d = \<lparr> mr_x = geti16 (drop 0 d), mr_y = geti16 (drop 2 d),
                    btns = getu32 (drop 4 d), mr_mod = getu32 (drop 8 d),
                    flags = getu32 (drop 12 d) \<rparr>"

datatype error = ErrCancelled | ErrSyscall | ErrAlreadyEngaged

text \<open>
  \<open>getConsoleInput\<close>, as a function of what the two system calls return: \<open>rv\<close> is the
  result of the wait, \<open>rrv\<close> and \<open>nrec\<close> the result and record count of the read,
  \<open>rec\<close> the record read, \<open>fe\<close> the screen's \<open>focusEnable\<close>. The result is the error
  returned and the events handed to \<open>postEvent\<close>, in order.
\<close>

definition getConsoleInput ::
  "bool \<Rightarrow> 64 word \<Rightarrow> 64 word \<Rightarrow> 32 word \<Rightarrow> inputRecord \<Rightarrow> error option \<times> Event list" where
  "getConsoleInput fe rv rrv nrec rec =
    (if rv = 0 then (Some ErrCancelled, [])
     else if rv = 1 then
       (if rrv = 0 then (Some ErrSyscall, [])
        else if nrec \<noteq> 1 then (None, [])
        else if rtyp rec = keyEvent then (None, keyEvents (parseKey (data rec)))
        else if rtyp rec = mouseEvent then
          (let mrec = parseMouse (data rec);
               b = mrec2btns (btns mrec) (flags mrec)
           in (None, [NewEventMouse (sint (mr_x mrec)) (sint (mr_y mrec)) b
                        (mod2mask (mr_mod mrec))]))
        else if rtyp rec = resizeEvent then
          (None, [NewEventResize (sint (geti16 (drop 0 (data rec))))
                                 (sint (geti16 (drop 2 (data rec))))])
        else if rtyp rec = focusEvent then
          (if fe then (None, [NewEventFocus (geti32 (drop 0 (data rec)) \<noteq> 0)])
           else (None, []))
        else (None, []))
     else (Some ErrSyscall, []))"

text \<open>\<open>HasKey\<close>: the Go map literal \<open>valid\<close>, read with the one-value lookup.\<close>

definition valid :: "Key \<rightharpoonup> bool" where
  "valid = map_of
    [(KeyBackspace, True), (KeyTab, True), (KeyEscape, True), (KeyPause, True),
     (KeyPrint, True), (KeyPgUp, True), (KeyPgDn, True), (KeyEnter, True), (KeyEnd, True),
     (KeyHome, True), (KeyLeft, True), (KeyUp, True), (KeyRight, True), (KeyDown, True),
     (KeyInsert, True), (KeyDelete, True),
     (KeyF1, True), (KeyF2, True), (KeyF3, True), (KeyF4, True), (KeyF5, True),
     (KeyF6, True), (KeyF7, True), (KeyF8, True), (KeyF9, True), (KeyF10, True),
     (KeyF11, True), (KeyF12, True), (KeyRune, True)]"

definition HasKey :: "Key \<Rightarrow> bool" where
  "HasKey k = (case valid k of None \<Rightarrow> False | Some b \<Rightarrow> b)"

subsection \<open>Colors and styles\<close>

text \<open>
  Modelled from the spec: a color (color package, not among the sources at hand) is the
  terminal default, the reset marker, a palette index 0..255, or an RGB triple. The sixteen
  named colors of the low palette are its indices 0..15; \<open>ColorGrey\<close> is another name of
  \<open>ColorGray\<close>.
\<close>

datatype Color = ColorDefault | ColorReset | PaletteColor nat | RGBColor int int int

definition ColorBlack :: Color where "ColorBlack = PaletteColor 0"
definition ColorMaroon :: Color where "ColorMaroon = PaletteColor 1"
definition ColorGreen :: Color where "ColorGreen = PaletteColor 2"
definition ColorOlive :: Color where "ColorOlive = PaletteColor 3"
definition ColorNavy :: Color where "ColorNavy = PaletteColor 4"
definition ColorPurple :: Color where "ColorPurple = PaletteColor 5"
definition ColorTeal :: Color where "ColorTeal = PaletteColor 6"
definition ColorSilver :: Color where "ColorSilver = PaletteColor 7"
definition ColorGray :: Color where "ColorGray = PaletteColor 8"
definition ColorGrey :: Color where "ColorGrey = ColorGray"
definition ColorRed :: Color where "ColorRed = PaletteColor 9"
definition ColorLime :: Color where "ColorLime = PaletteColor 10"
definition ColorYellow :: Color where "ColorYellow = PaletteColor 11"
definition ColorBlue :: Color where "ColorBlue = PaletteColor 12"
definition ColorFuchsia :: Color where "ColorFuchsia = PaletteColor 13"
definition ColorAqua :: Color where "ColorAqua = PaletteColor 14"
definition ColorWhite :: Color where "ColorWhite = PaletteColor 15"

lemmas color_defs =
  ColorBlack_def ColorMaroon_def ColorGreen_def ColorOlive_def ColorNavy_def
  ColorPurple_def ColorTeal_def ColorSilver_def ColorGray_def ColorGrey_def ColorRed_def
  ColorLime_def ColorYellow_def ColorBlue_def ColorFuchsia_def ColorAqua_def ColorWhite_def

text \<open>Modelled from the spec: the color tests \<open>IsRGB\<close> and \<open>Valid\<close>.\<close>

definition IsRGB :: "Color \<Rightarrow> bool" where
  "IsRGB c = (case c of RGBColor r g b \<Rightarrow> True | _ \<Rightarrow> False)"

definition Valid :: "Color \<Rightarrow> bool" where
  "Valid c = (case c of RGBColor r g b \<Rightarrow> True | PaletteColor n \<Rightarrow> True | _ \<Rightarrow> False)"

type_synonym AttrMask = int

text \<open>
  Modelled from the spec: the attribute bits (attribute package, not among the sources at
  hand): distinct single bits for bold, blink, reverse, underline and dim, and the bit that
  marks a style invalid.
\<close>

definition AttrBold :: AttrMask where "AttrBold = 1"
definition AttrBlink :: AttrMask where "AttrBlink = 2"
definition AttrReverse :: AttrMask where "AttrReverse = 4"
definition AttrUnderline :: AttrMask where "AttrUnderline = 8"
definition AttrDim :: AttrMask where "AttrDim = 16"
definition AttrInvalid :: AttrMask where "AttrInvalid = 128"

datatype UnderlineStyle =
    UnderlineStyleNone | UnderlineStyleSolid | UnderlineStyleDouble | UnderlineStyleCurly
  | UnderlineStyleDotted | UnderlineStyleDashed

text \<open>
  Modelled from the spec: the style aggregate (style package, not among the sources at
  hand). \<open>StyleDefault\<close> is the zero value; \<open>styleInvalid\<close> carries the invalid bit.
\<close>

record Style =
  fg :: Color
  bg :: Color
  ulStyle :: UnderlineStyle
  ulColor :: Color
  attrs :: AttrMask
  url :: "rune list"
  urlId :: "rune list"

definition StyleDefault :: Style where
  "StyleDefault = \<lparr> fg = ColorDefault, bg = ColorDefault, ulStyle = UnderlineStyleNone,
                     ulColor = ColorDefault, attrs = 0, url = [], urlId = [] \<rparr>"

definition styleInvalid :: Style where
  "styleInvalid = StyleDefault \<lparr> attrs := AttrInvalid \<rparr>"

subsection \<open>The cell buffer\<close>

text \<open>
  Modelled from the spec: the cell buffer (cell package, not among the sources at hand). A
  dense W x H array of cells in row-major order; a cell holds a primary rune, combining
  runes, a style, a width and a dirty bit. An access out of range yields the zero-valued
  cell and never panics; a stored width of 0 reads as 1. \<open>Resize\<close> keeps the overlapping
  region and leaves every cell dirty; \<open>Invalidate\<close> makes every cell dirty.
\<close>

record cell =
  c_main :: rune
  c_comb :: "rune list"
  c_style :: Style
  c_width :: nat
  c_dirty :: bool

record CellBuffer =
  cb_w :: int
  cb_h :: int
  cb_cells :: "cell list"

definition zero_cell :: cell where
  "zero_cell = \<lparr> c_main = 0, c_comb = [], c_style = StyleDefault, c_width = 0,
                  c_dirty = False \<rparr>"

definition cb_inside :: "CellBuffer \<Rightarrow> int \<Rightarrow> int \<Rightarrow> bool" where
  "cb_inside cb x y = (x \<ge> 0 \<and> y \<ge> 0 \<and> x < cb_w cb \<and> y < cb_h cb)"

definition cb_index :: "CellBuffer \<Rightarrow> int \<Rightarrow> int \<Rightarrow> nat" where
  "cb_index cb x y = nat (y * cb_w cb + x)"

definition GetContent :: "CellBuffer \<Rightarrow> int \<Rightarrow> int \<Rightarrow> rune \<times> rune list \<times> Style \<times> int" where
  "GetContent cb x y =
    (if cb_inside cb x y then
       (let c = cb_cells cb ! cb_index cb x y
        in (c_main c, c_comb c, c_style c, if c_width c = 0 then 1 else int (c_width c)))
     else (0, [], StyleDefault, 0))"

definition Dirty :: "CellBuffer \<Rightarrow> int \<Rightarrow> int \<Rightarrow> bool" where
  "Dirty cb x y = (if cb_inside cb x y then c_dirty (cb_cells cb ! cb_index cb x y) else False)"

definition SetDirty :: "CellBuffer \<Rightarrow> int \<Rightarrow> int \<Rightarrow> bool \<Rightarrow> CellBuffer" where
  "SetDirty cb x y b =
    (if cb_inside cb x y then
       cb \<lparr> cb_cells := (cb_cells cb)
               [cb_index cb x y := (cb_cells cb ! cb_index cb x y) \<lparr> c_dirty := b \<rparr>] \<rparr>
     else cb)"

definition Invalidate :: "CellBuffer \<Rightarrow> CellBuffer" where
  "Invalidate cb = cb \<lparr> cb_cells := map (\<lambda>c. c \<lparr> c_dirty := True \<rparr>) (cb_cells cb) \<rparr>"

definition Resize :: "CellBuffer \<Rightarrow> int \<Rightarrow> int \<Rightarrow> CellBuffer" where
  "Resize cb nw nh =
    \<lparr> cb_w = nw, cb_h = nh,
      cb_cells = concat (map (\<lambda>y. map (\<lambda>x.
                   (if cb_inside cb (int x) (int y)
                    then cb_cells cb ! cb_index cb (int x) (int y)
                    else zero_cell) \<lparr> c_dirty := True \<rparr>) [0..<nat nw]) [0..<nat nh]) \<rparr>"

subsection \<open>The host console\<close>

record coord =
  co_x :: "16 word"
  co_y :: "16 word"

text \<open>
  The method \<open>uintptr\<close> of \<open>coord\<close>: both \<open>int16\<close> fields are converted to the 64-bit
  \<open>uintptr\<close> with their sign, so a negative \<open>x\<close> fills every bit above its own.
\<close>

definition coord_uintptr :: "coord \<Rightarrow> 64 word" where
  "coord_uintptr c = scast (co_x c) OR push_bit 16 (scast (co_y c))"

text \<open>
  The console takes a \<open>COORD\<close> by value: of the argument word it reads the low 16 bits as
  \<open>X\<close> and the next 16 bits as \<open>Y\<close>.
\<close>

definition passed_coord :: "64 word \<Rightarrow> coord" where
  "passed_coord v = \<lparr> co_x = ucast v, co_y = ucast (drop_bit 16 v) \<rparr>"

record rect =
  r_left :: "16 word"
  r_top :: "16 word"
  r_right :: "16 word"
  r_bottom :: "16 word"

record cursorInfo =
  cu_size :: "32 word"
  cu_visible :: "32 word"

record consoleInfo =
  ci_size :: coord
  ci_pos :: coord
  ci_attrs :: "16 word"
  ci_win :: rect
  ci_maxsz :: coord

definition zero_coord :: coord where "zero_coord = \<lparr> co_x = 0, co_y = 0 \<rparr>"

definition zero_consoleInfo :: consoleInfo where
  "zero_consoleInfo = \<lparr> ci_size = zero_coord, ci_pos = zero_coord, ci_attrs = 0,
       ci_win = \<lparr> r_left = 0, r_top = 0, r_right = 0, r_bottom = 0 \<rparr>,
       ci_maxsz = zero_coord \<rparr>"

text \<open>
  The calls the driver makes on the console that change it, with their arguments; the
  driver ignores what they return.
\<close>

datatype call =
    WriteConsole "16 word list"
  | SetConsoleCursorInfo cursorInfo
  | SetConsoleCursorPosition coord
  | SetConsoleTextAttribute "16 word"
  | SetConsoleScreenBufferSize coord
  | SetConsoleWindowInfo rect
  | SetConsoleModeIn "32 word"
  | SetConsoleModeOut "32 word"
  | FillConsoleOutputAttribute "16 word" "32 word" coord
  | FillConsoleOutputCharacter "16 word" "32 word" coord
  | SetEvent

text \<open>
  What the driver does not contain: the host console, which answers each query as a
  function of the calls made so far (\<open>None\<close>: the query failed and left its result
  variable as it was), and two functions of the color package (the nearest color of a
  palette, and the RGB components of a color).
\<close>

record host =
  open_in_ok :: bool
  open_out_ok :: bool
  create_event_ok :: "call list \<Rightarrow> bool"
  console_info :: "call list \<Rightarrow> consoleInfo option"
  cursor_info :: "call list \<Rightarrow> cursorInfo option"
  in_mode :: "call list \<Rightarrow> 32 word option"
  out_mode :: "call list \<Rightarrow> 32 word option"
  largest_window :: "call list \<Rightarrow> 64 word"
  FindColor :: "Color \<Rightarrow> Color list \<Rightarrow> Color"
  palette_RGB :: "Color \<Rightarrow> int \<times> int \<times> int"

subsection \<open>The screen\<close>

text \<open>
  The fields of \<open>cScreen\<close> (\<open>w\<close> and \<open>h\<close> are \<open>scr_w\<close> and \<open>scr_h\<close>). A channel
  is \<open>None\<close> while nil, and then holds what matters of it: the queued events of
  \<open>eventQ\<close> (capacity 10), whether \<open>quit\<close> and \<open>stopQ\<close> are closed. \<open>finiOnce\<close>
  tells that the once has run. The last three fields are not fields of the Go struct: the
  host, the calls made on it so far, and the package's color cache \<open>winColors\<close>. The
  scanner task is not part of this sequential model; what it decodes is
  \<open>getConsoleInput\<close>.
\<close>

record cScreen =
  quitQ :: "bool option"
  curx :: int
  cury :: int
  style :: Style
  fini :: bool
  vten :: bool
  truecolor :: bool
  running :: bool
  disableAlt :: bool
  title :: "rune list"
  scr_w :: int
  scr_h :: int
  oscreen :: consoleInfo
  ocursor :: cursorInfo
  cursorStyle :: int
  cursorColor :: Color
  oimode :: "32 word"
  oomode :: "32 word"
  cells :: CellBuffer
  focusEnable :: bool
  mouseEnabled :: bool
  eventQ :: "Event list option"
  stopQ :: "bool option"
  finiOnce :: bool
  hst :: host
  calls :: "call list"
  winColors :: "Color \<rightharpoonup> Color"

definition winPalette :: "Color list" where
  "winPalette = [ColorBlack, ColorMaroon, ColorGreen, ColorNavy, ColorOlive, ColorPurple,
                 ColorTeal, ColorSilver, ColorGray, ColorRed, ColorLime, ColorBlue,
                 ColorYellow, ColorFuchsia, ColorAqua, ColorWhite]"

text \<open>The initial value of the package variable \<open>winColors\<close>.\<close>

definition winColors_init :: "Color \<rightharpoonup> Color" where
  "winColors_init = map_of (map (\<lambda>c. (c, c)) winPalette)"

text \<open>
  \<open>NewConsoleScreen\<close>: the zero-valued struct. The cursor style 0 is
  \<open>CursorStyleDefault\<close>.
\<close>

definition NewConsoleScreen :: "host \<Rightarrow> cScreen" where
  "NewConsoleScreen hs =
    \<lparr> quitQ = None, curx = 0, cury = 0, style = StyleDefault, fini = False, vten = False,
      truecolor = False, running = False, disableAlt = False, title = [],
      scr_w = 0, scr_h = 0, oscreen = zero_consoleInfo,
      ocursor = \<lparr> cu_size = 0, cu_visible = 0 \<rparr>, cursorStyle = 0,
      cursorColor = ColorDefault, oimode = 0, oomode = 0,
      cells = \<lparr> cb_w = 0, cb_h = 0, cb_cells = [] \<rparr>, focusEnable = False,
      mouseEnabled = False, eventQ = None, stopQ = None, finiOnce = False,
      hst = hs, calls = [], winColors = winColors_init \<rparr>"

subsection \<open>Strings, formatting and UTF-16\<close>

definition str :: "string \<Rightarrow> rune list" where
  "str cs = map of_char cs"

text \<open>\<open>%d\<close> of \<open>fmt.Sprintf\<close>.\<close>

fun dec :: "nat \<Rightarrow> rune list" where
  "dec n = (if n < 10 then [48 + int n] else dec (n div 10) @ [48 + int (n mod 10)])"

declare dec.simps [simp del]

definition itoa :: "int \<Rightarrow> rune list" where
  "itoa i = (if i < 0 then 45 # dec (nat (- i)) else dec (nat i))"

text \<open>\<open>%02x\<close> of \<open>fmt.Sprintf\<close>: lower-case hexadecimal, zero-padded to width 2.\<close>

definition hexdigit :: "nat \<Rightarrow> rune" where
  "hexdigit d = (if d < 10 then 48 + int d else 87 + int d)"

fun hex :: "nat \<Rightarrow> rune list" where
  "hex n = (if n < 16 then [hexdigit n] else hex (n div 16) @ [hexdigit (n mod 16)])"

declare hex.simps [simp del]

definition hex02 :: "int \<Rightarrow> rune list" where
  "hex02 i = (if i < 0 then 45 # hex (nat (- i))
              else if i < 16 then 48 # hex (nat i) else hex (nat i))"

text \<open>\<open>utf16.Encode\<close> of Go's standard library.\<close>

definition encode_rune :: "rune \<Rightarrow> 16 word list" where
  "encode_rune r =
    (if (0 \<le> r \<and> r < 0xd800) \<or> (0xe000 \<le> r \<and> r < 0x10000) then [word_of_int r]
     else if 0x10000 \<le> r \<and> r \<le> 0x10FFFF then
       [word_of_int (0xd800 + ((r - 0x10000) div 1024) mod 1024),
        word_of_int (0xdc00 + (r - 0x10000) mod 1024)]
     else [0xFFFD])"

definition utf16_Encode :: "rune list \<Rightarrow> 16 word list" where
  "utf16_Encode rs = concat (map encode_rune rs)"

subsection \<open>The VT escapes\<close>

definition vtShowCursor :: "rune list" where "vtShowCursor = 27 # str ''[?25h''"
definition vtHideCursor :: "rune list" where "vtHideCursor = 27 # str ''[?25l''"
definition vtCursorPos :: "int \<Rightarrow> int \<Rightarrow> rune list" where
  "vtCursorPos a b = 27 # str ''['' @ itoa a @ str '';'' @ itoa b @ str ''H''"
definition vtSgr0 :: "rune list" where "vtSgr0 = 27 # str ''[0m''"
definition vtBold :: "rune list" where "vtBold = 27 # str ''[1m''"
definition vtUnderline :: "rune list" where "vtUnderline = 27 # str ''[4m''"
definition vtBlink :: "rune list" where "vtBlink = 27 # str ''[5m''"
definition vtReverse :: "rune list" where "vtReverse = 27 # str ''[7m''"
definition vtSetFg :: "int \<Rightarrow> rune list" where
  "vtSetFg n = 27 # str ''[38;5;'' @ itoa n @ str ''m''"
definition vtSetBg :: "int \<Rightarrow> rune list" where
  "vtSetBg n = 27 # str ''[48;5;'' @ itoa n @ str ''m''"
definition vtSetFgRGB :: "int \<Rightarrow> int \<Rightarrow> int \<Rightarrow> rune list" where
  "vtSetFgRGB r g b =
     27 # str ''[38;2;'' @ itoa r @ str '';'' @ itoa g @ str '';'' @ itoa b @ str ''m''"
definition vtSetBgRGB :: "int \<Rightarrow> int \<Rightarrow> int \<Rightarrow> rune list" where
  "vtSetBgRGB r g b =
     27 # str ''[48;2;'' @ itoa r @ str '';'' @ itoa g @ str '';'' @ itoa b @ str ''m''"
definition vtCursorDefault :: "rune list" where "vtCursorDefault = 27 # str ''[0 q''"
definition vtCursorBlinkingBlock :: "rune list" where
  "vtCursorBlinkingBlock = 27 # str ''[1 q''"
definition vtCursorSteadyBlock :: "rune list" where
  "vtCursorSteadyBlock = 27 # str ''[2 q''"
definition vtCursorBlinkingUnderline :: "rune list" where
  "vtCursorBlinkingUnderline = 27 # str ''[3 q''"
definition vtCursorSteadyUnderline :: "rune list" where
  "vtCursorSteadyUnderline = 27 # str ''[4 q''"
definition vtCursorBlinkingBar :: "rune list" where
  "vtCursorBlinkingBar = 27 # str ''[5 q''"
definition vtCursorSteadyBar :: "rune list" where
  "vtCursorSteadyBar = 27 # str ''[6 q''"
definition vtDisableAm :: "rune list" where "vtDisableAm = 27 # str ''[?7l''"
definition vtEnableAm :: "rune list" where "vtEnableAm = 27 # str ''[?7h''"
definition vtEnterCA :: "rune list" where
  "vtEnterCA = 27 # str ''[?1049h'' @ 27 # str ''[22;0;0t''"
definition vtExitCA :: "rune list" where
  "vtExitCA = 27 # str ''[?1049l'' @ 27 # str ''[23;0;0t''"
definition vtDoubleUnderline :: "rune list" where "vtDoubleUnderline = 27 # str ''[4:2m''"
definition vtCurlyUnderline :: "rune list" where "vtCurlyUnderline = 27 # str ''[4:3m''"
definition vtDottedUnderline :: "rune list" where "vtDottedUnderline = 27 # str ''[4:4m''"
definition vtDashedUnderline :: "rune list" where "vtDashedUnderline = 27 # str ''[4:5m''"
definition vtUnderColor :: "int \<Rightarrow> rune list" where
  "vtUnderColor n = 27 # str ''[58:5:'' @ itoa n @ str ''m''"
definition vtUnderColorRGB :: "int \<Rightarrow> int \<Rightarrow> int \<Rightarrow> rune list" where
  "vtUnderColorRGB r g b =
     27 # str ''[58:2::'' @ itoa r @ str '':'' @ itoa g @ str '':'' @ itoa b @ str ''m''"
definition vtUnderColorReset :: "rune list" where "vtUnderColorReset = 27 # str ''[59m''"
definition vtEnterUrl :: "rune list \<Rightarrow> rune list \<Rightarrow> rune list" where
  "vtEnterUrl uid u = 27 # str '']8;'' @ uid @ str '';'' @ u @ [27, 92]"
definition vtExitUrl :: "rune list" where "vtExitUrl = 27 # str '']8;;'' @ [27, 92]"
definition vtCursorColorRGB :: "int \<Rightarrow> int \<Rightarrow> int \<Rightarrow> rune list" where
  "vtCursorColorRGB r g b = 27 # str '']12;#'' @ hex02 r @ hex02 g @ hex02 b @ [7]"
definition vtCursorColorReset :: "rune list" where
  "vtCursorColorReset = 27 # str '']112'' @ [7]"
definition vtSaveTitle :: "rune list" where "vtSaveTitle = 27 # str ''[22;2t''"
definition vtRestoreTitle :: "rune list" where "vtRestoreTitle = 27 # str ''[23;2t''"
definition vtSetTitle :: "rune list \<Rightarrow> rune list" where
  "vtSetTitle t = 27 # str '']2;'' @ t @ [27, 92]"

text \<open>
  Modelled from the spec: the cursor styles (not among the sources at hand) are the
  numbers 0..6 of the escape \<open>ESC [ n SP q\<close>.
\<close>

type_synonym CursorStyle = int

definition CursorStyleDefault :: CursorStyle where "CursorStyleDefault = 0"
definition CursorStyleBlinkingBlock :: CursorStyle where "CursorStyleBlinkingBlock = 1"
definition CursorStyleSteadyBlock :: CursorStyle where "CursorStyleSteadyBlock = 2"
definition CursorStyleBlinkingUnderline :: CursorStyle where
  "CursorStyleBlinkingUnderline = 3"
definition CursorStyleSteadyUnderline :: CursorStyle where "CursorStyleSteadyUnderline = 4"
definition CursorStyleBlinkingBar :: CursorStyle where "CursorStyleBlinkingBar = 5"
definition CursorStyleSteadyBar :: CursorStyle where "CursorStyleSteadyBar = 6"

lemmas CursorStyle_defs =
  CursorStyleDefault_def CursorStyleBlinkingBlock_def CursorStyleSteadyBlock_def
  CursorStyleBlinkingUnderline_def CursorStyleSteadyUnderline_def
  CursorStyleBlinkingBar_def CursorStyleSteadyBar_def

definition vtCursorStyles :: "CursorStyle \<rightharpoonup> rune list" where
  "vtCursorStyles = map_of
    [(CursorStyleDefault, vtCursorDefault),
     (CursorStyleBlinkingBlock, vtCursorBlinkingBlock),
     (CursorStyleSteadyBlock, vtCursorSteadyBlock),
     (CursorStyleBlinkingUnderline, vtCursorBlinkingUnderline),
     (CursorStyleSteadyUnderline, vtCursorSteadyUnderline),
     (CursorStyleBlinkingBar, vtCursorBlinkingBar),
     (CursorStyleSteadyBar, vtCursorSteadyBar)]"

text \<open>The one-value lookup \<open>vtCursorStyles[cs]\<close>: the empty string for a missing key.\<close>

definition vtCursorStyles_at :: "CursorStyle \<Rightarrow> rune list" where
  "vtCursorStyles_at cs = (case vtCursorStyles cs of None \<Rightarrow> [] | Some v \<Rightarrow> v)"

subsection \<open>Console calls and queries\<close>

definition emit :: "call \<Rightarrow> cScreen \<Rightarrow> cScreen" where
  "emit c s = s \<lparr> calls := calls s @ [c] \<rparr>"

text \<open>\<open>emitVtString\<close> takes the address of the first code unit: it panics on none.\<close>

definition emitVtString :: "rune list \<Rightarrow> cScreen \<Rightarrow> cScreen option" where
  "emitVtString vs s =
    (let esc = utf16_Encode vs
     in if esc = [] then None else Some (emit (WriteConsole esc) s))"

definition getConsoleInfo :: "cScreen \<Rightarrow> consoleInfo \<Rightarrow> consoleInfo" where
  "getConsoleInfo s info =
     (case console_info (hst s) (calls s) of None \<Rightarrow> info | Some i \<Rightarrow> i)"

definition getCursorInfo :: "cScreen \<Rightarrow> cursorInfo \<Rightarrow> cursorInfo" where
  "getCursorInfo s info =
     (case cursor_info (hst s) (calls s) of None \<Rightarrow> info | Some i \<Rightarrow> i)"

definition setCursorInfo :: "cursorInfo \<Rightarrow> cScreen \<Rightarrow> cScreen" where
  "setCursorInfo info s = emit (SetConsoleCursorInfo info) s"

definition setCursorPos :: "int \<Rightarrow> int \<Rightarrow> bool \<Rightarrow> cScreen \<Rightarrow> cScreen option" where
  "setCursorPos x y vtEnable s =
    (if vtEnable then emitVtString (vtCursorPos (y + 1) (x + 1)) s
     else Some (emit (SetConsoleCursorPosition
                        (passed_coord (coord_uintptr
                           \<lparr> co_x = word_of_int x, co_y = word_of_int y \<rparr>))) s))"

definition setBufferSize :: "int \<Rightarrow> int \<Rightarrow> cScreen \<Rightarrow> cScreen" where
  "setBufferSize x y s =
     emit (SetConsoleScreenBufferSize
             (passed_coord (coord_uintptr \<lparr> co_x = word_of_int x, co_y = word_of_int y \<rparr>))) s"

definition modeExtendFlg :: "32 word" where "modeExtendFlg = 0x0080"
definition modeMouseEn :: "32 word" where "modeMouseEn = 0x0010"
definition modeResizeEn :: "32 word" where "modeResizeEn = 0x0008"
definition modeCookedOut :: "32 word" where "modeCookedOut = 0x0001"
definition modeVtOutput :: "32 word" where "modeVtOutput = 0x0004"
definition modeNoAutoNL :: "32 word" where "modeNoAutoNL = 0x0008"
definition modeUnderline :: "32 word" where "modeUnderline = 0x0010"

definition setInMode :: "32 word \<Rightarrow> cScreen \<Rightarrow> cScreen" where
  "setInMode m s = emit (SetConsoleModeIn m) s"

definition setOutMode :: "32 word \<Rightarrow> cScreen \<Rightarrow> cScreen" where
  "setOutMode m s = emit (SetConsoleModeOut m) s"

definition getInMode :: "cScreen \<Rightarrow> 32 word \<Rightarrow> 32 word" where
  "getInMode s v = (case in_mode (hst s) (calls s) of None \<Rightarrow> v | Some m \<Rightarrow> m)"

definition getOutMode :: "cScreen \<Rightarrow> 32 word \<Rightarrow> 32 word" where
  "getOutMode s v = (case out_mode (hst s) (calls s) of None \<Rightarrow> v | Some m \<Rightarrow> m)"

definition enableMouse :: "bool \<Rightarrow> cScreen \<Rightarrow> cScreen" where
  "enableMouse on s =
    (if on then setInMode (modeResizeEn OR modeMouseEn OR modeExtendFlg) s
     else setInMode (modeResizeEn OR modeExtendFlg) s)"

subsection \<open>Cursor\<close>

text \<open>Modelled from the spec: \<open>Color.RGB\<close>; the components of an RGB triple are its own.\<close>

definition color_RGB :: "host \<Rightarrow> Color \<Rightarrow> int \<times> int \<times> int" where
  "color_RGB hs c = (case c of RGBColor r g b \<Rightarrow> (r, g, b) | _ \<Rightarrow> palette_RGB hs c)"

definition showCursor :: "cScreen \<Rightarrow> cScreen option" where
  "showCursor s =
    (if vten s then do {
       s \<leftarrow> emitVtString vtShowCursor s;
       s \<leftarrow> emitVtString (vtCursorStyles_at (cursorStyle s)) s;
       if cursorColor s = ColorReset then emitVtString vtCursorColorReset s
       else if Valid (cursorColor s) then
         (case color_RGB (hst s) (cursorColor s) of
            (r, g, b) \<Rightarrow> emitVtString (vtCursorColorRGB r g b) s)
       else Some s
     } else Some (setCursorInfo \<lparr> cu_size = 100, cu_visible = 1 \<rparr> s))"

definition hideCursor :: "cScreen \<Rightarrow> cScreen option" where
  "hideCursor s =
    (if vten s then emitVtString vtHideCursor s
     else Some (setCursorInfo \<lparr> cu_size = 1, cu_visible = 0 \<rparr> s))"

definition doCursor :: "cScreen \<Rightarrow> cScreen option" where
  "doCursor s =
    (let x = curx s; y = cury s
     in if x < 0 \<or> y < 0 \<or> x \<ge> scr_w s \<or> y \<ge> scr_h s then hideCursor s
        else do { s \<leftarrow> setCursorPos x y (vten s) s; showCursor s })"

definition ShowCursor :: "int \<Rightarrow> int \<Rightarrow> cScreen \<Rightarrow> cScreen option" where
  "ShowCursor x y s =
    (let s = (if \<not> fini s then s \<lparr> curx := x, cury := y \<rparr> else s) in doCursor s)"

definition SetCursor :: "CursorStyle \<Rightarrow> Color \<Rightarrow> cScreen \<Rightarrow> cScreen option" where
  "SetCursor cs cc s =
    (if \<not> fini s then
       (case vtCursorStyles cs of
          Some v \<Rightarrow> doCursor (s \<lparr> cursorStyle := cs, cursorColor := cc \<rparr>)
        | None \<Rightarrow> Some s)
     else Some s)"

definition HideCursor :: "cScreen \<Rightarrow> cScreen option" where
  "HideCursor s = ShowCursor (- 1) (- 1) s"

subsection \<open>Style translation\<close>

definition vgaColors :: "Color \<rightharpoonup> 16 word" where
  "vgaColors = map_of
    [(ColorBlack, 0), (ColorMaroon, 0x4), (ColorGreen, 0x2), (ColorNavy, 0x1),
     (ColorOlive, 0x6), (ColorPurple, 0x5), (ColorTeal, 0x3), (ColorSilver, 0x7),
     (ColorGrey, 0x8), (ColorRed, 0xc), (ColorLime, 0xa), (ColorBlue, 0x9),
     (ColorYellow, 0xe), (ColorFuchsia, 0xd), (ColorAqua, 0xb), (ColorWhite, 0xf)]"

text \<open>\<open>mapColor2RGB\<close> reads and fills the cache \<open>winColors\<close>.\<close>

definition mapColor2RGB :: "Color \<Rightarrow> cScreen \<Rightarrow> 16 word \<times> cScreen" where
  "mapColor2RGB c s =
    (case (case winColors s c of
             Some v \<Rightarrow> (v, s)
           | None \<Rightarrow> (let v = FindColor (hst s) c winPalette
                      in (v, s \<lparr> winColors := (winColors s)(c \<mapsto> v) \<rparr>))) of
       (c', s') \<Rightarrow> (case vgaColors c' of Some vc \<Rightarrow> (vc, s') | None \<Rightarrow> (0, s')))"

definition mapStyle :: "Style \<Rightarrow> cScreen \<Rightarrow> 16 word \<times> cScreen" where
  "mapStyle sty s =
    (let f = fg sty; b = bg sty; a = attrs sty;
         fa = ci_attrs (oscreen s) AND 0xf;
         ba = drop_bit 4 (ci_attrs (oscreen s)) AND 0xf
     in case (if f \<noteq> ColorDefault \<and> f \<noteq> ColorReset then mapColor2RGB f s else (fa, s)) of
          (fa, s) \<Rightarrow>
        case (if b \<noteq> ColorDefault \<and> b \<noteq> ColorReset then mapColor2RGB b s else (ba, s)) of
          (ba, s) \<Rightarrow>
        (let attr = (if a AND AttrReverse \<noteq> 0 then ba OR push_bit 4 fa
                     else fa OR push_bit 4 ba);
             attr = (if a AND AttrBold \<noteq> 0 then attr OR 0x8 else attr);
             attr = (if a AND AttrDim \<noteq> 0 then attr AND NOT 0x8 else attr);
             attr = (if a AND AttrUnderline \<noteq> 0 then attr OR 0x8000 else attr)
         in (attr, s)))"

definition makeVtStyle :: "host \<Rightarrow> Style \<Rightarrow> rune list" where
  "makeVtStyle hs sty =
    (let fgc = fg sty; bgc = bg sty; a = attrs sty; us = ulStyle sty; uc = ulColor sty;
         esc = vtSgr0;
         esc = (if a AND (AttrBold OR AttrDim) = AttrBold then esc @ vtBold else esc);
         esc = (if a AND AttrBlink \<noteq> 0 then esc @ vtBlink else esc);
         esc = (if us \<noteq> UnderlineStyleNone then
                  (let esc = (if uc = ColorReset then esc @ vtUnderColorReset
                              else if IsRGB uc then
                                (case color_RGB hs uc of
                                   (r, g, b) \<Rightarrow> esc @ vtUnderColorRGB r g b)
                              else if Valid uc then
                                (case uc of PaletteColor n \<Rightarrow> esc @ vtUnderColor (int (n mod 256))
                                          | _ \<Rightarrow> esc)
                              else esc);
                       esc = esc @ vtUnderline
                   in (case us of
                         UnderlineStyleDouble \<Rightarrow> esc @ vtDoubleUnderline
                       | UnderlineStyleCurly \<Rightarrow> esc @ vtCurlyUnderline
                       | UnderlineStyleDotted \<Rightarrow> esc @ vtDottedUnderline
                       | UnderlineStyleDashed \<Rightarrow> esc @ vtDashedUnderline
                       | _ \<Rightarrow> esc))
                else esc);
         esc = (if a AND AttrReverse \<noteq> 0 then esc @ vtReverse else esc);
         esc = (if IsRGB fgc then
                  (case color_RGB hs fgc of (r, g, b) \<Rightarrow> esc @ vtSetFgRGB r g b)
                else if Valid fgc then
                  (case fgc of PaletteColor n \<Rightarrow> esc @ vtSetFg (int (n mod 256)) | _ \<Rightarrow> esc)
                else esc);
         esc = (if IsRGB bgc then
                  (case color_RGB hs bgc of (r, g, b) \<Rightarrow> esc @ vtSetBgRGB r g b)
                else if Valid bgc then
                  (case bgc of PaletteColor n \<Rightarrow> esc @ vtSetBg (int (n mod 256)) | _ \<Rightarrow> esc)
                else esc);
         esc = (if url sty \<noteq> [] then esc @ vtEnterUrl (urlId sty) (url sty)
                else esc @ vtExitUrl)
     in esc)"

definition sendVtStyle :: "Style \<Rightarrow> cScreen \<Rightarrow> cScreen option" where
  "sendVtStyle sty s = emitVtString (makeVtStyle (hst s) sty) s"

subsection \<open>The renderer\<close>

definition writeString ::
  "int \<Rightarrow> int \<Rightarrow> Style \<Rightarrow> 16 word list \<Rightarrow> cScreen \<Rightarrow> cScreen option" where
  "writeString x y sty chs s =
    (if chs = [] then Some s
     else if vten s then
       Some (emit (WriteConsole (utf16_Encode (vtCursorPos (y + 1) (x + 1))
                                 @ utf16_Encode (makeVtStyle (hst s) sty) @ chs)) s)
     else do {
       s \<leftarrow> setCursorPos x y (vten s) s;
       (case mapStyle sty s of
          (a, s) \<Rightarrow> Some (emit (WriteConsole chs) (emit (SetConsoleTextAttribute a) s)))
     })"

text \<open>The variables of \<open>draw\<close> that live across its loop iterations.\<close>

record run =
  wcs :: "16 word list"
  lstyle :: Style
  lx :: int
  ly :: int

text \<open>
  One iteration of the inner loop of \<open>draw\<close>, at column \<open>x\<close> of row \<open>y\<close>: the screen
  and the run after it, and the column the loop tests next.
\<close>

definition draw_cell :: "int \<Rightarrow> int \<Rightarrow> cScreen \<Rightarrow> run \<Rightarrow> (cScreen \<times> run \<times> int) option" where
  "draw_cell y x s r =
    (case GetContent (cells s) x y of (mainc, combc, sty0, width) \<Rightarrow>
     (let dirty = Dirty (cells s) x y;
          sty = (if sty0 = StyleDefault then style s else sty0)
      in case (if \<not> dirty \<or> sty \<noteq> lstyle r then
                 (case writeString (lx r) (ly r) (lstyle r) (wcs r) s of
                    None \<Rightarrow> None
                  | Some s \<Rightarrow> Some (s, r \<lparr> wcs := [], lstyle := StyleDefault \<rparr>))
               else Some (s, r)) of
           None \<Rightarrow> None
         | Some (s, r) \<Rightarrow>
           (if \<not> dirty then Some (s, r, x + 1)
            else
              (case (if x > scr_w s - width then (32, [], 1) else (mainc, combc, width)) of
                 (mainc, combc, width) \<Rightarrow>
                 (let r = (if wcs r = [] then r \<lparr> lstyle := sty, lx := x, ly := y \<rparr> else r);
                      r = r \<lparr> wcs := wcs r @ utf16_Encode [mainc] \<rparr>;
                      r = (if combc \<noteq> [] then r \<lparr> wcs := wcs r @ utf16_Encode combc \<rparr>
                           else r);
                      s = s \<lparr> cells := fold (\<lambda>dx cb. SetDirty cb (x + int dx) y False)
                                          [0..<nat width] (cells s) \<rparr>
                  in Some (s, r, x + (width - 1) + 1))))))"

function draw_cols :: "int \<Rightarrow> int \<Rightarrow> cScreen \<Rightarrow> run \<Rightarrow> (cScreen \<times> run) option" where
  "draw_cols y x s r =
    (if x < scr_w s then
       (case draw_cell y x s r of
          None \<Rightarrow> None
        | Some (s', r', x') \<Rightarrow> draw_cols y x' s' r')
     else Some (s, r))"
  by pat_completeness auto

text \<open>
  What the renderer leaves alone. \<open>quiet\<close> forgets the calls made and the color
  cache, \<open>content\<close> forgets the dirty bits of a cell buffer, \<open>still\<close> forgets all
  three: an operation that keeps \<open>still\<close> may write to the console and clear or set dirty
  bits, and changes nothing else.
\<close>

definition quiet :: "cScreen \<Rightarrow> cScreen" where
  "quiet s = s \<lparr> calls := [], winColors := Map.empty \<rparr>"

definition content :: "CellBuffer \<Rightarrow> CellBuffer" where
  "content cb = cb \<lparr> cb_cells := map (\<lambda>c. c \<lparr> c_dirty := False \<rparr>) (cb_cells cb) \<rparr>"

definition still :: "cScreen \<Rightarrow> cScreen" where
  "still s = s \<lparr> calls := [], winColors := Map.empty, cells := content (cells s) \<rparr>"

lemma quiet_emit [simp]: "quiet (emit c s) = quiet s"
  by (simp add: quiet_def emit_def)

lemma quiet_winColors [simp]: "quiet (s \<lparr> winColors := m \<rparr>) = quiet s"
  by (simp add: quiet_def)

lemma quiet_cells_upd [simp]: "quiet (s \<lparr> cells := cb \<rparr>) = (quiet s) \<lparr> cells := cb \<rparr>"
  by (simp add: quiet_def)

lemma still_quiet: "quiet s' = quiet s \<Longrightarrow> still s' = still s"
proof -
  assume a: "quiet s' = quiet s"
  have "still s' = (quiet s') \<lparr> cells := content (cells (quiet s')) \<rparr>"
    by (simp add: still_def quiet_def)
  also have "\<dots> = (quiet s) \<lparr> cells := content (cells (quiet s)) \<rparr>" by (simp add: a)
  also have "\<dots> = still s" by (simp add: still_def quiet_def)
  finally show ?thesis .
qed

lemma emitVtString_quiet:
  "emitVtString vs s = Some s' \<Longrightarrow> quiet s' = quiet s"
  by (auto simp: emitVtString_def Let_def split: if_splits)

lemma setCursorPos_quiet:
  "setCursorPos x y vt s = Some s' \<Longrightarrow> quiet s' = quiet s"
  by (auto simp: setCursorPos_def dest: emitVtString_quiet split: if_splits)

lemma mapColor2RGB_quiet:
  "mapColor2RGB c s = (v, s') \<Longrightarrow> quiet s' = quiet s"
  by (auto simp: mapColor2RGB_def Let_def split: option.splits)

lemma mapStyle_quiet:
  assumes "mapStyle sty s = (a, s')" shows "quiet s' = quiet s"
proof -
  obtain fa s1 where 1: "(if fg sty \<noteq> ColorDefault \<and> fg sty \<noteq> ColorReset then mapColor2RGB (fg sty) s
       else (ci_attrs (oscreen s) AND 0xf, s)) = (fa, s1)" by (metis surj_pair)
  obtain ba s2 where 2: "(if bg sty \<noteq> ColorDefault \<and> bg sty \<noteq> ColorReset then mapColor2RGB (bg sty) s1
       else (drop_bit 4 (ci_attrs (oscreen s)) AND 0xf, s1)) = (ba, s2)" by (metis surj_pair)
  from 1 have q1: "quiet s1 = quiet s" by (auto split: if_splits dest: mapColor2RGB_quiet)
  from 2 have q2: "quiet s2 = quiet s1" by (auto split: if_splits dest: mapColor2RGB_quiet)
  from assms 1 2 have "s' = s2" by (simp add: mapStyle_def Let_def)
  with q1 q2 show ?thesis by simp
qed

lemma writeString_quiet:
  "writeString x y sty chs s = Some s' \<Longrightarrow> quiet s' = quiet s"
  unfolding writeString_def
  by (auto split: if_splits prod.splits Option.bind_splits dest!: setCursorPos_quiet mapStyle_quiet)

lemma GetContent_width_pos:
  "Dirty cb x y \<Longrightarrow> GetContent cb x y = (m, c, st, wd) \<Longrightarrow> 1 \<le> wd"
  by (auto simp: Dirty_def GetContent_def Let_def split: if_splits)

lemma map_update_same: "(map f xs)[i := f (xs ! i)] = map f xs"
  by (cases "i < length xs") (simp_all add: list_update_same_conv list_update_beyond)

lemma content_SetDirty [simp]: "content (SetDirty cb x y b) = content cb"
proof -
  have "(map (\<lambda>c. c \<lparr> c_dirty := False \<rparr>) (cb_cells cb))
          [i := (cb_cells cb ! i) \<lparr> c_dirty := False \<rparr>]
        = map (\<lambda>c. c \<lparr> c_dirty := False \<rparr>) (cb_cells cb)" for i
    using map_update_same [of "\<lambda>c. c \<lparr> c_dirty := False \<rparr>" "cb_cells cb" i] by simp
  then show ?thesis by (simp add: content_def SetDirty_def map_update)
qed

lemma content_fold_SetDirty [simp]:
  "content (fold (\<lambda>dx cb. SetDirty cb (f dx) y b) ns cb) = content cb"
  by (induction ns arbitrary: cb) simp_all

lemma quiet_fields:
  assumes "quiet s' = quiet s"
  shows "cells s' = cells s" "scr_w s' = scr_w s" "scr_h s' = scr_h s" "still s' = still s"
proof -
  have "cells (quiet s') = cells (quiet s)" "scr_w (quiet s') = scr_w (quiet s)"
       "scr_h (quiet s') = scr_h (quiet s)"
    using assms by simp_all
  then show "cells s' = cells s" "scr_w s' = scr_w s" "scr_h s' = scr_h s"
    by (simp_all add: quiet_def)
  then show "still s' = still s" using still_quiet [OF assms] by simp
qed

lemma writeString_frame:
  assumes "writeString x y sty chs s = Some s'"
  shows "quiet s' = quiet s \<and> cells s' = cells s \<and> scr_w s' = scr_w s \<and> scr_h s' = scr_h s"
  using quiet_fields [OF writeString_quiet [OF assms]] writeString_quiet [OF assms] by simp

lemma still_cells_upd [simp]:
  "still (s \<lparr> cells := cb \<rparr>) = (quiet s) \<lparr> cells := content cb \<rparr>"
  by (simp add: still_def quiet_def)

lemma still_alt: "still s = (quiet s) \<lparr> cells := content (cells s) \<rparr>"
  by (simp add: still_def quiet_def)

lemma draw_cell_still:
  assumes "draw_cell y x s r = Some (s', r', x')"
  shows "still s' = still s"
  using assms unfolding draw_cell_def Let_def
  by (auto simp: still_alt split: if_splits prod.splits option.splits dest!: writeString_frame)

lemma draw_cell_scr:
  assumes "draw_cell y x s r = Some (s', r', x')"
  shows "scr_w s' = scr_w s" "scr_h s' = scr_h s"
  using assms unfolding draw_cell_def Let_def
  by (auto split: if_splits prod.splits option.splits dest!: writeString_frame)

lemma draw_cell_advance:
  assumes "draw_cell y x s r = Some (s', r', x')"
  shows "x < x'"
  using assms unfolding draw_cell_def Let_def
  by (auto split: if_splits prod.splits option.splits dest!: GetContent_width_pos)

termination draw_cols
proof (relation "measure (\<lambda>(y, x, s, r). nat (scr_w s - x))", goal_cases)
  case 1
  show ?case by simp
next
  case (2 y x s r res s' rx r' x')
  then have "draw_cell y x s r = Some (s', r', x')" by simp
  from draw_cell_scr(1) [OF this] draw_cell_advance [OF this] 2(1)
  show ?case by simp
qed

declare draw_cols.simps [simp del]


lemma draw_cols_frame:
  "draw_cols y x s r = Some (s', r') \<Longrightarrow>
     still s' = still s \<and> scr_w s' = scr_w s \<and> scr_h s' = scr_h s"
proof (induction y x s r rule: draw_cols.induct)
  case (1 y x s r)
  show ?case
  proof (cases "x < scr_w s")
    case False
    with 1(2) show ?thesis by (simp add: draw_cols.simps [of y x s r])
  next
    case True
    with 1(2) obtain s1 r1 x1 where c: "draw_cell y x s r = Some (s1, r1, x1)"
      and d: "draw_cols y x1 s1 r1 = Some (s', r')"
      by (auto simp: draw_cols.simps [of y x s r] split: option.splits)
    from 1(1) [OF True c refl refl d] draw_cell_still [OF c] draw_cell_scr [OF c]
    show ?thesis by simp
  qed
qed

function draw_rows :: "int \<Rightarrow> cScreen \<Rightarrow> run \<Rightarrow> cScreen option" where
  "draw_rows y s r =
    (if y < scr_h s then
       (case draw_cols y 0 s r of
          None \<Rightarrow> None
        | Some (s1, r1) \<Rightarrow>
            (case writeString (lx r1) (ly r1) (lstyle r1) (wcs r1) s1 of
               None \<Rightarrow> None
             | Some s2 \<Rightarrow> draw_rows (y + 1) s2 (r1 \<lparr> wcs := [], lstyle := styleInvalid \<rparr>)))
     else Some s)"
  by pat_completeness auto
termination
proof (relation "measure (\<lambda>(y, s, r). nat (scr_h s - y))", goal_cases)
  case 1
  show ?case by simp
next
  case (2 y s r res s1 r1 s2)
  then have "draw_cols y 0 s r = Some (s1, r1)" by simp
  from draw_cols_frame [OF this] writeString_frame [OF 2(4)] 2(1)
  show ?case by simp
qed

declare draw_rows.simps [simp del]

text \<open>
  \<open>draw\<close>: the scratch line is made with capacity \<open>s.w\<close>, which panics when that is
  negative.
\<close>

definition draw :: "cScreen \<Rightarrow> cScreen option" where
  "draw s =
    (if scr_w s < 0 then None
     else draw_rows 0 s \<lparr> wcs = [], lstyle = styleInvalid, lx = - 1, ly = - 1 \<rparr>)"

subsection \<open>Geometry\<close>

text \<open>The non-blocking send of \<open>resize\<close> on \<open>eventQ\<close>, a channel of capacity 10.\<close>

definition try_post :: "Event \<Rightarrow> cScreen \<Rightarrow> cScreen" where
  "try_post ev s =
    (case eventQ s of
       None \<Rightarrow> s
     | Some q \<Rightarrow> if length q < 10 then s \<lparr> eventQ := Some (q @ [ev]) \<rparr> else s)"

definition resize :: "cScreen \<Rightarrow> cScreen" where
  "resize s =
    (let info = getConsoleInfo s zero_consoleInfo;
         nw = sint ((r_right (ci_win info) - r_left (ci_win info)) + 1);
         nh = sint ((r_bottom (ci_win info) - r_top (ci_win info)) + 1)
     in if scr_w s = nw \<and> scr_h s = nh then s
        else
          (let s = s \<lparr> cells := Resize (cells s) nw nh \<rparr>;
               s = s \<lparr> scr_w := nw \<rparr>;
               s = s \<lparr> scr_h := nh \<rparr>;
               s = setBufferSize nw nh s;
               s = emit (SetConsoleWindowInfo
                           \<lparr> r_left = 0, r_top = 0, r_right = word_of_int (nw - 1),
                             r_bottom = word_of_int (nh - 1) \<rparr>) s
           in try_post (NewEventResize nw nh) s))"

text \<open>
  \<open>SetSize\<close>: \<open>xy\<close> is what \<open>GetLargestConsoleWindowSize\<close> returns, a \<open>uintptr\<close>
  (64 bits here).
\<close>

definition SetSize :: "int \<Rightarrow> int \<Rightarrow> cScreen \<Rightarrow> cScreen" where
  "SetSize wd ht s =
    (let xy = largest_window (hst s) (calls s);
         y = uint (drop_bit 16 xy);
         x = uint (xy AND 0xffff)
     in if x = 0 \<or> y = 0 then s
        else if x \<ge> 500 then s
        else
          (let s = setBufferSize x y s;
               s = emit (SetConsoleWindowInfo
                           \<lparr> r_left = 0, r_top = 0, r_right = word_of_int (wd - 1),
                             r_bottom = word_of_int (ht - 1) \<rparr>) s
           in resize s))"

definition Size :: "cScreen \<Rightarrow> int \<times> int" where
  "Size s = (scr_w s, scr_h s)"

subsection \<open>Show and Sync\<close>

definition Show :: "cScreen \<Rightarrow> cScreen option" where
  "Show s =
    (if \<not> fini s then do {
       s \<leftarrow> hideCursor s;
       s \<leftarrow> Some (resize s);
       s \<leftarrow> draw s;
       doCursor s
     } else Some s)"

definition Sync :: "cScreen \<Rightarrow> cScreen option" where
  "Sync s =
    (if \<not> fini s then do {
       s \<leftarrow> Some (s \<lparr> cells := Invalidate (cells s) \<rparr>);
       s \<leftarrow> hideCursor s;
       s \<leftarrow> Some (resize s);
       s \<leftarrow> draw s;
       doCursor s
     } else Some s)"

subsection \<open>Lifecycle\<close>

function clear_rows :: "int \<Rightarrow> bool \<Rightarrow> rune list \<Rightarrow> cScreen \<Rightarrow> cScreen option" where
  "clear_rows y vtEnable row s =
    (if y < scr_h s then
       (case setCursorPos 0 y vtEnable s of
          None \<Rightarrow> None
        | Some s1 \<Rightarrow>
            (case emitVtString row s1 of
               None \<Rightarrow> None
             | Some s2 \<Rightarrow> clear_rows (y + 1) vtEnable row s2))
     else Some s)"
  by pat_completeness auto
termination
proof (relation "measure (\<lambda>(y, vt, row, s). nat (scr_h s - y))", goal_cases)
  case 1
  show ?case by simp
next
  case (2 y vt row s s1 s2)
  from quiet_fields(3) [OF setCursorPos_quiet [OF 2(2)]]
       quiet_fields(3) [OF emitVtString_quiet [OF 2(3)]] 2(1)
  show ?case by simp
qed

declare clear_rows.simps [simp del]

text \<open>
  \<open>clearScreen\<close>: \<open>strings.Repeat\<close> panics on a negative count, and the row of
  spaces is built before the loop.
\<close>

definition clearScreen :: "Style \<Rightarrow> bool \<Rightarrow> cScreen \<Rightarrow> cScreen option" where
  "clearScreen sty vtEnable s =
    (if vtEnable then do {
       s \<leftarrow> sendVtStyle sty s;
       row \<leftarrow> (if scr_w s < 0 then None else Some (replicate (nat (scr_w s)) (32 :: rune)));
       s \<leftarrow> clear_rows 0 vtEnable row s;
       setCursorPos 0 0 vtEnable s
     } else
       (case mapStyle sty s of
          (attr, s) \<Rightarrow>
          (let count = (word_of_int (scr_w s * scr_h s) :: 32 word);
               s = emit (FillConsoleOutputAttribute attr count
                           (passed_coord (coord_uintptr zero_coord))) s;
               s = emit (FillConsoleOutputCharacter 32 count
                           (passed_coord (coord_uintptr zero_coord))) s
           in Some s)))"

definition vtOutputModes :: "32 word" where
  "vtOutputModes = modeVtOutput OR modeNoAutoNL OR modeCookedOut OR modeUnderline"

text \<open>
  \<open>engage\<close> and \<open>Init\<close> return an error value (\<open>None\<close>: nil) beside the screen they
  leave. \<open>engage\<close> ends by starting the scanner task.
\<close>

definition engage :: "cScreen \<Rightarrow> (error option \<times> cScreen) option" where
  "engage s =
    (if running s then Some (Some ErrAlreadyEngaged, s)
     else
       (let s = s \<lparr> stopQ := Some False \<rparr>
        in if \<not> create_event_ok (hst s) (calls s) then Some (Some ErrSyscall, s)
           else do {
             s \<leftarrow> Some (s \<lparr> running := True \<rparr>);
             s \<leftarrow> Some (enableMouse (mouseEnabled s) s);
             s \<leftarrow> (if vten s then do {
                     s \<leftarrow> Some (setOutMode vtOutputModes s);
                     s \<leftarrow> (if \<not> disableAlt s then do {
                             s \<leftarrow> emitVtString vtSaveTitle s;
                             emitVtString vtEnterCA s
                           } else Some s);
                     s \<leftarrow> emitVtString vtDisableAm s;
                     if title s \<noteq> [] then emitVtString (vtSetTitle (title s)) s else Some s
                   } else Some (setOutMode 0 s));
             s \<leftarrow> clearScreen (style s) (vten s) s;
             s \<leftarrow> hideCursor s;
             s \<leftarrow> Some (s \<lparr> cells := Invalidate (cells s) \<rparr>);
             s \<leftarrow> hideCursor s;
             s \<leftarrow> Some (resize s);
             s \<leftarrow> draw s;
             s \<leftarrow> doCursor s;
             Some (None, s)
           }))"

text \<open>\<open>disengage\<close>: closing a channel that is nil or closed panics.\<close>

definition disengage :: "cScreen \<Rightarrow> cScreen option" where
  "disengage s =
    (if \<not> running s then Some s
     else do {
       s \<leftarrow> Some (s \<lparr> running := False \<rparr>);
       s \<leftarrow> Some (emit SetEvent s);
       s \<leftarrow> (if stopQ s = Some False then Some (s \<lparr> stopQ := Some True \<rparr>) else None);
       s \<leftarrow> (if vten s then do {
               s \<leftarrow> emitVtString (vtCursorStyles_at CursorStyleDefault) s;
               s \<leftarrow> emitVtString vtCursorColorReset s;
               s \<leftarrow> emitVtString vtEnableAm s;
               if \<not> disableAlt s then do {
                 s \<leftarrow> emitVtString vtRestoreTitle s;
                 emitVtString vtExitCA s
               } else Some s
             } else if \<not> disableAlt s then do {
               s \<leftarrow> clearScreen StyleDefault (vten s) s;
               setCursorPos 0 0 False s
             } else Some s);
       s \<leftarrow> Some (setCursorInfo (ocursor s) s);
       s \<leftarrow> Some (setBufferSize (sint (co_x (ci_size (oscreen s))))
                                  (sint (co_y (ci_size (oscreen s)))) s);
       s \<leftarrow> Some (setInMode (oimode s) s);
       s \<leftarrow> Some (setOutMode (oomode s) s);
       (case mapStyle StyleDefault s of
          (a, s) \<Rightarrow> Some (emit (SetConsoleTextAttribute a) s))
     })"

text \<open>
  The environment switches of \<open>Init\<close>. \<open>env_truecolor\<close> is the pair of the truecolor
  flag and the local \<open>tryVt\<close> after the \<open>ConEmuPID\<close> test and the
  \<open>TCELL_TRUECOLOR\<close> switch; \<open>env_vtmode\<close> is \<open>tryVt\<close> after the
  \<open>TCELL_VTMODE\<close> switch; \<open>env_altscreen\<close> is \<open>disableAlt\<close> after the
  \<open>TCELL_ALTSCREEN\<close> switch. An unset variable reads as the empty string.
\<close>

definition env_truecolor :: "(string \<Rightarrow> string) \<Rightarrow> bool \<times> bool" where
  "env_truecolor getenv =
    (case (if getenv ''ConEmuPID'' \<noteq> [] then (False, False) else (True, True)) of
       (tc, tryVt) \<Rightarrow>
         if getenv ''TCELL_TRUECOLOR'' = ''disable'' then (False, tryVt)
         else if getenv ''TCELL_TRUECOLOR'' = ''enable'' then (True, True)
         else (tc, tryVt))"

definition env_vtmode :: "(string \<Rightarrow> string) \<Rightarrow> bool \<Rightarrow> bool" where
  "env_vtmode getenv tryVt =
    (if getenv ''TCELL_VTMODE'' = ''disable'' then False
     else if getenv ''TCELL_VTMODE'' = ''enable'' then True
     else tryVt)"

definition env_altscreen :: "(string \<Rightarrow> string) \<Rightarrow> bool \<Rightarrow> bool" where
  "env_altscreen getenv da =
    (if getenv ''TCELL_ALTSCREEN'' = ''enable'' then False
     else if getenv ''TCELL_ALTSCREEN'' = ''disable'' then True
     else da)"

text \<open>
  \<open>Init\<close> up to the call of \<open>engage\<close>, once both handles are open: the screen, and
  whether the VT path was tried.
\<close>

definition Init_setup :: "(string \<Rightarrow> string) \<Rightarrow> cScreen \<Rightarrow> cScreen \<times> bool" where
  "Init_setup getenv s =
    (case env_truecolor getenv of (tc, tryVt) \<Rightarrow>
     (let s = s \<lparr> truecolor := tc \<rparr>;
          s = s \<lparr> curx := - 1 \<rparr>;
          s = s \<lparr> cury := - 1 \<rparr>;
          s = s \<lparr> style := StyleDefault \<rparr>;
          s = s \<lparr> ocursor := getCursorInfo s (ocursor s) \<rparr>;
          s = s \<lparr> oscreen := getConsoleInfo s (oscreen s) \<rparr>;
          s = s \<lparr> oomode := getOutMode s (oomode s) \<rparr>;
          s = s \<lparr> oimode := getInMode s (oimode s) \<rparr>;
          s = resize s;
          s = s \<lparr> fini := False \<rparr>;
          s = setInMode (modeResizeEn OR modeExtendFlg) s;
          tryVt = env_vtmode getenv tryVt;
          s = s \<lparr> disableAlt := env_altscreen getenv (disableAlt s) \<rparr>;
          s = (if tryVt then
                 (let s = setOutMode vtOutputModes s;
                      om = getOutMode s 0
                  in if om AND modeVtOutput = modeVtOutput then s \<lparr> vten := True \<rparr>
                     else setOutMode 0 (s \<lparr> truecolor := False \<rparr>))
               else setOutMode 0 s)
      in (s, tryVt)))"

definition Init :: "(string \<Rightarrow> string) \<Rightarrow> cScreen \<Rightarrow> (error option \<times> cScreen) option" where
  "Init getenv s =
    (let s = s \<lparr> eventQ := Some [] \<rparr>;
         s = s \<lparr> quitQ := Some False \<rparr>
     in if \<not> open_in_ok (hst s) then Some (Some ErrSyscall, s)
        else if \<not> open_out_ok (hst s) then Some (Some ErrSyscall, s)
        else engage (fst (Init_setup getenv s)))"

text \<open>\<open>Fini\<close>: once only, close \<open>quit\<close> and disengage.\<close>

definition Fini :: "cScreen \<Rightarrow> cScreen option" where
  "Fini s =
    (if finiOnce s then Some s
     else do {
       s \<leftarrow> (if quitQ s = Some False then Some (s \<lparr> quitQ := Some True \<rparr>) else None);
       s \<leftarrow> disengage s;
       Some (s \<lparr> finiOnce := True \<rparr>)
     })"

definition Suspend :: "cScreen \<Rightarrow> cScreen option" where
  "Suspend s = disengage s"

definition Resume :: "cScreen \<Rightarrow> (error option \<times> cScreen) option" where
  "Resume s = engage s"

definition SetStyle :: "Style \<Rightarrow> cScreen \<Rightarrow> cScreen" where
  "SetStyle sty s = s \<lparr> style := sty \<rparr>"

definition SetTitle :: "rune list \<Rightarrow> cScreen \<Rightarrow> cScreen option" where
  "SetTitle t s =
    (let s = s \<lparr> title := t \<rparr>
     in if vten s then emitVtString (vtSetTitle t) s else Some s)"

subsection \<open>Concrete inputs\<close>

text \<open>
  A key-down record for the character U+00E9 with right alt and left ctrl held (AltGr),
  one for the tab character with shift held, three repeats, and one for the control
  character 0x01 with left ctrl and left alt held.
\<close>

definition altgr_record :: inputRecord where
  "altgr_record =
     \<lparr> rtyp = 1, data = [1, 0, 0, 0, 1, 0, 0x45, 0, 0x12, 0, 0xe9, 0, 9, 0, 0, 0] \<rparr>"

definition shift_tab_record :: inputRecord where
  "shift_tab_record =
     \<lparr> rtyp = 1, data = [1, 0, 0, 0, 3, 0, 9, 0, 0x0f, 0, 9, 0, 0x10, 0, 0, 0] \<rparr>"


text \<open>
  A host that opens, whose window is 2 columns by 1 row, whose largest window is 120 by
  50, and which does not keep the VT output bit; the same host keeping it; and the same
  host with a largest window of 120 by 600.
\<close>

definition legacy_host :: host where
  "legacy_host =
    \<lparr> open_in_ok = True, open_out_ok = True, create_event_ok = (\<lambda>cs. True),
      console_info = (\<lambda>cs. Some \<lparr> ci_size = \<lparr> co_x = 80, co_y = 300 \<rparr>, ci_pos = zero_coord,
                                 ci_attrs = 0x07,
                                 ci_win = \<lparr> r_left = 0, r_top = 0, r_right = 1, r_bottom = 0 \<rparr>,
                                 ci_maxsz = \<lparr> co_x = 120, co_y = 50 \<rparr> \<rparr>),
      cursor_info = (\<lambda>cs. Some \<lparr> cu_size = 25, cu_visible = 1 \<rparr>),
      in_mode = (\<lambda>cs. Some 0x1f7), out_mode = (\<lambda>cs. Some 0x3),
      largest_window = (\<lambda>cs. 0x00320078),
      FindColor = (\<lambda>c p. ColorBlack), palette_RGB = (\<lambda>c. (0, 0, 0)) \<rparr>"

definition vt_host :: host where
  "vt_host = legacy_host \<lparr> out_mode := (\<lambda>cs. Some 0x1f) \<rparr>"

definition tall_host :: host where
  "tall_host = legacy_host \<lparr> largest_window := (\<lambda>cs. 0x02580078) \<rparr>"

definition zero_host :: host where
  "zero_host = legacy_host \<lparr> largest_window := (\<lambda>cs. 0) \<rparr>"

text \<open>
  Environments: only \<open>TCELL_TRUECOLOR\<close> set, to \<open>disable\<close> or to \<open>enable\<close>; and
  \<open>TCELL_TRUECOLOR=enable\<close> with \<open>TCELL_VTMODE=disable\<close>.
\<close>

definition env_disable :: "string \<Rightarrow> string" where
  "env_disable n = (if n = ''TCELL_TRUECOLOR'' then ''disable'' else [])"

definition env_enable :: "string \<Rightarrow> string" where
  "env_enable n = (if n = ''TCELL_TRUECOLOR'' then ''enable'' else [])"

definition env_enable_novt :: "string \<Rightarrow> string" where
  "env_enable_novt n =
     (if n = ''TCELL_TRUECOLOR'' then ''enable''
      else if n = ''TCELL_VTMODE'' then ''disable'' else [])"

text \<open>
  A cell buffer is well formed when it has as many cells as its dimensions say.
\<close>

definition cb_wf :: "CellBuffer \<Rightarrow> bool" where
  "cb_wf cb = (length (cb_cells cb) = nat (cb_w cb) * nat (cb_h cb))"

text \<open>
  A screen of 4 columns and 1 row on a console with such a window: three clean blank
  cells, then a dirty cell holding a rune of width 2 in the last column; and the run of
  \<open>draw\<close> as it stands when the loop reaches that column.
\<close>

definition edge_host :: host where
  "edge_host = legacy_host \<lparr> console_info :=
     (\<lambda>cs. Some (zero_consoleInfo \<lparr> ci_attrs := 0x07,
                  ci_win := \<lparr> r_left = 0, r_top = 0, r_right = 3, r_bottom = 0 \<rparr> \<rparr>)) \<rparr>"

definition blank_cell :: cell where
  "blank_cell = \<lparr> c_main = 32, c_comb = [], c_style = StyleDefault, c_width = 1,
                   c_dirty = False \<rparr>"

definition wide_cell :: cell where
  "wide_cell = \<lparr> c_main = 0x4e2d, c_comb = [], c_style = StyleDefault, c_width = 2,
                  c_dirty = True \<rparr>"

definition edge_screen :: cScreen where
  "edge_screen = (NewConsoleScreen edge_host)
     \<lparr> curx := - 1, cury := - 1, scr_w := 4, scr_h := 1,
       oscreen := zero_consoleInfo \<lparr> ci_attrs := 0x07 \<rparr>,
       cells := \<lparr> cb_w = 4, cb_h = 1,
                  cb_cells = [blank_cell, blank_cell, blank_cell, wide_cell] \<rparr> \<rparr>"

definition edge_run :: run where
  "edge_run = \<lparr> wcs = [], lstyle = StyleDefault, lx = - 1, ly = - 1 \<rparr>"

text \<open>
  The two color indices \<open>mapStyle\<close> works with: the mapped color, or the nibble of the
  attribute word captured at \<open>Init\<close> when the color is the default or the reset marker.
\<close>

definition fg_nibble :: "Style \<Rightarrow> cScreen \<Rightarrow> 16 word" where
  "fg_nibble sty s =
     (if fg sty = ColorDefault \<or> fg sty = ColorReset then ci_attrs (oscreen s) AND 0xf
      else fst (mapColor2RGB (fg sty) s))"

definition bg_nibble :: "Style \<Rightarrow> cScreen \<Rightarrow> 16 word" where
  "bg_nibble sty s =
     (if bg sty = ColorDefault \<or> bg sty = ColorReset
      then drop_bit 4 (ci_attrs (oscreen s)) AND 0xf
      else fst (mapColor2RGB (bg sty) s))"

text \<open>
  A screen whose captured attribute word is 0x17, and a style with a red foreground, the
  default background, reverse and bold.
\<close>

definition attr_screen :: cScreen where
  "attr_screen =
     (NewConsoleScreen legacy_host) \<lparr> oscreen := zero_consoleInfo \<lparr> ci_attrs := 0x17 \<rparr> \<rparr>"

definition reverse_bold_red :: Style where
  "reverse_bold_red = StyleDefault \<lparr> fg := ColorRed, attrs := AttrReverse OR AttrBold \<rparr>"

subsection \<open>What a pass over the screen writes\<close>

text \<open>
  The payloads of the \<open>WriteConsole\<close> calls of a trace, in order.
\<close>

definition payloads :: "call list \<Rightarrow> 16 word list list" where
  "payloads cs = concat (map (\<lambda>c. case c of WriteConsole p \<Rightarrow> [p] | _ \<Rightarrow> []) cs)"

text \<open>
  The code units that stand for the visual cell at column \<open>x\<close> of row \<open>y\<close> of a screen
  \<open>w\<close> columns wide, and the number of columns they take: the main rune and its combining
  sequence, or one space when the glyph would run over the right edge. \<open>row_text\<close> strings
  them along a row from column \<open>x\<close> on, \<open>screen_text\<close> along the rows from \<open>y\<close> on.
\<close>

definition glyph ::
  "(int \<Rightarrow> int \<Rightarrow> rune \<times> rune list \<times> Style \<times> int) \<Rightarrow> int \<Rightarrow> int \<Rightarrow> int \<Rightarrow> 16 word list \<times> int" where
  "glyph g w x y =
    (case g x y of (m, c, st, wd) \<Rightarrow>
       if x > w - wd then (utf16_Encode [32], 1) else (utf16_Encode [m] @ utf16_Encode c, wd))"

function row_text ::
  "(int \<Rightarrow> int \<Rightarrow> rune \<times> rune list \<times> Style \<times> int) \<Rightarrow> int \<Rightarrow> int \<Rightarrow> int \<Rightarrow> 16 word list" where
  "row_text g w y x =
    (if x < w then fst (glyph g w x y) @ row_text g w y (x + max 1 (snd (glyph g w x y)))
     else [])"
  by pat_completeness auto
termination
  by (relation "measure (\<lambda>(g, w, y, x). nat (w - x))") auto

declare row_text.simps [simp del]

function screen_text ::
  "(int \<Rightarrow> int \<Rightarrow> rune \<times> rune list \<times> Style \<times> int) \<Rightarrow> int \<Rightarrow> int \<Rightarrow> int \<Rightarrow> 16 word list" where
  "screen_text g w h y =
    (if y < h then row_text g w y 0 @ screen_text g w h (y + 1) else [])"
  by pat_completeness auto
termination
  by (relation "measure (\<lambda>(g, w, h, y). nat (h - y))") auto

declare screen_text.simps [simp del]

text \<open>
  \<open>written ps runs\<close>: each payload of \<open>ps\<close> ends with the run of the same position in
  \<open>runs\<close>, which is not empty (what precedes the run in a payload is the escape
  sequence of the position and the style, in VT mode).
\<close>

definition written :: "16 word list list \<Rightarrow> 16 word list list \<Rightarrow> bool" where
  "written ps runs = list_all2 (\<lambda>p run. run \<noteq> [] \<and> suffix run p) ps runs"

text \<open>
  Every cell of the viewport is dirty; the cell buffer has the size of the viewport.
\<close>

definition all_dirty :: "cScreen \<Rightarrow> bool" where
  "all_dirty s = (\<forall>x y. 0 \<le> x \<and> x < scr_w s \<and> 0 \<le> y \<and> y < scr_h s \<longrightarrow> Dirty (cells s) x y)"

definition fits :: "cScreen \<Rightarrow> bool" where
  "fits s = (cb_wf (cells s) \<and> cb_w (cells s) = scr_w s \<and> cb_h (cells s) = scr_h s)"

section \<open>Properties\<close>

subsection \<open>Coordinates as the console receives them\<close>

lemma sign_bit16: "bit (w :: 16 word) 15 \<longleftrightarrow> sint w < 0"
  using bit_last_iff [of w] by simp

lemma passed_x:
  "(ucast (scast (a :: 16 word) OR push_bit 16 (scast (b :: 16 word)) :: 64 word) :: 16 word) = a"
  by (rule bit_word_eqI) (auto simp add: bit_simps)

lemma passed_y:
  "(ucast (drop_bit 16 (scast (a :: 16 word) OR push_bit 16 (scast (b :: 16 word)) :: 64 word))
      :: 16 word) = (if 0 \<le> sint a then b else - 1)"
  by (rule bit_word_eqI) (auto simp add: bit_simps sign_bit16 not_less)

text \<open>
  A coordinate whose \<open>x\<close> is not negative arrives as it is; a negative \<open>x\<close> wipes \<open>y\<close>.
\<close>

lemma passed_coord_uintptr:
  "passed_coord (coord_uintptr c) = (if 0 \<le> sint (co_x c) then c else c \<lparr> co_y := - 1 \<rparr>)"
  unfolding passed_coord_def coord_uintptr_def passed_x passed_y by simp

lemma sint16_small: "0 \<le> x \<Longrightarrow> x < 32768 \<Longrightarrow> sint (word_of_int x :: 16 word) = x"
  by (simp add: int_word_sint)

lemma setBufferSize_small:
  "0 \<le> x \<Longrightarrow> x < 32768 \<Longrightarrow>
     setBufferSize x y s =
       emit (SetConsoleScreenBufferSize \<lparr> co_x = word_of_int x, co_y = word_of_int y \<rparr>) s"
  by (simp add: setBufferSize_def passed_coord_uintptr sint16_small)

lemma setCursorPos_small:
  "0 \<le> x \<Longrightarrow> x < 32768 \<Longrightarrow>
     setCursorPos x y False s =
       Some (emit (SetConsoleCursorPosition \<lparr> co_x = word_of_int x, co_y = word_of_int y \<rparr>) s)"
  by (simp add: setCursorPos_def passed_coord_uintptr sint16_small)

text \<open>
  With a negative column the console is given the row \<open>- 1\<close> (0xffff), whatever the row
  was.
\<close>

lemma setCursorPos_negative:
  "setCursorPos (- 1) 5 False s =
     Some (emit (SetConsoleCursorPosition \<lparr> co_x = - 1, co_y = - 1 \<rparr>) s)"
  by (simp add: setCursorPos_def passed_coord_uintptr)

subsection \<open>Repeated posting\<close>

lemma post_repeat_replicate: "post_repeat n ev = replicate (unat n) ev"
proof (induction n ev rule: post_repeat.induct)
  case (1 n ev)
  show ?case
  proof (cases "n > 0")
    case True
    then have "unat n = Suc (unat (n - 1))"
      by (simp add: unat_minus_one word_greater_zero_iff unat_gt_0)
    with True 1 show ?thesis by (simp add: post_repeat.simps [of n ev])
  next
    case False
    then have "n = 0" by (simp add: word_greater_zero_iff)
    then show ?thesis by (simp add: post_repeat.simps [of 0 ev])
  qed
qed

subsection \<open>The input decoder\<close>

lemma mod2mask_altgr:
  assumes "cks AND (0x0008 OR 0x0004) \<noteq> 0" "cks AND (0x0002 OR 0x0001) \<noteq> 0"
  shows "mod2mask cks = (if cks AND 0x0010 \<noteq> 0 then ModShift else ModNone)"
  using assms by (simp add: mod2mask_def Let_def ModNone_def)

lemma in_post_repeat: "e \<in> set (post_repeat n ev) \<Longrightarrow> e = ev"
  by (simp add: post_repeat_replicate)

lemma keyEvents_masks:
  assumes "e \<in> set (keyEvents krec)"
  shows "\<exists>k c. e = NewEventKey k c ModNone \<or> e = NewEventKey k c (mod2mask (kr_mod krec))"
  using assms unfolding keyEvents_def
  by (auto split: if_splits option.splits dest!: in_post_repeat)

lemma getConsoleInput_key:
  assumes "rtyp rec = keyEvent" "rrv \<noteq> 0"
  shows "getConsoleInput fe 1 rrv 1 rec = (None, keyEvents (parseKey (data rec)))"
  using assms by (simp add: getConsoleInput_def)

lemma altgr_parse:
  "parseKey (data altgr_record) =
     \<lparr> isdown = 1, repeat = 1, kcode = 0x45, scode = 0x12, ch = 0xe9, kr_mod = 9 \<rparr>"
  by (simp add: altgr_record_def parseKey_def getu32_def geti32_def getu16_def)

lemma altgr_events:
  "getConsoleInput False 1 1 1 altgr_record = (None, [NewEventKey KeyRune 0xe9 0])"
proof -
  have "rtyp altgr_record = keyEvent" by (simp add: altgr_record_def keyEvent_def)
  then show ?thesis
    by (simp add: getConsoleInput_def altgr_parse keyEvents_def mod2mask_def Let_def
        ModNone_def ModShift_def vkTab_def post_repeat_replicate)
qed

lemma shift_tab_parse:
  "parseKey (data shift_tab_record) =
     \<lparr> isdown = 1, repeat = 3, kcode = 9, scode = 0x0f, ch = 9, kr_mod = 0x10 \<rparr>"
  by (simp add: shift_tab_record_def parseKey_def getu32_def geti32_def getu16_def)

text \<open>
  A key record whose control-key state has a ctrl bit (0x8 or 0x4) and an alt bit (0x2 or
  0x1) set: every call of the event constructor that the decoder makes for it is
  \<open>NewEventKey\<close> with a mask that holds neither \<open>ModCtrl\<close> nor \<open>ModAlt\<close>.
\<close>

lemma decoder_altgr_masks:
  assumes "rtyp rec = keyEvent"
    and "kr_mod (parseKey (data rec)) AND (0x0008 OR 0x0004) \<noteq> 0"
    and "kr_mod (parseKey (data rec)) AND (0x0002 OR 0x0001) \<noteq> 0"
  shows "\<forall>e \<in> set (snd (getConsoleInput fe rv rrv nrec rec)).
           \<exists>k c m. e = NewEventKey k c m \<and> m AND ModCtrl = 0 \<and> m AND ModAlt = 0"
proof
  fix e assume "e \<in> set (snd (getConsoleInput fe rv rrv nrec rec))"
  with assms(1) have "e \<in> set (keyEvents (parseKey (data rec)))"
    by (auto simp: getConsoleInput_def split: if_splits)
  from keyEvents_masks [OF this] mod2mask_altgr [OF assms(2,3)]
  show "\<exists>k c m. e = NewEventKey k c m \<and> m AND ModCtrl = 0 \<and> m AND ModAlt = 0"
    by (auto simp: ModNone_def ModShift_def ModCtrl_def ModAlt_def)
qed



text \<open>
  C5. A key-down record with a repeat count of at least 1, whose decoded modifier mask is
  exactly shift and whose character is the tab code 0x09: the decoder posts the Backtab key
  event with rune 0 and no modifiers, once per repeat, and nothing else.
\<close>

theorem C5_shift_tab_backtab:
  assumes "rtyp rec = keyEvent" "rrv \<noteq> 0"
    and "isdown (parseKey (data rec)) \<noteq> 0" "repeat (parseKey (data rec)) \<ge> 1"
    and "mod2mask (kr_mod (parseKey (data rec))) = ModShift"
    and "ch (parseKey (data rec)) = vkTab"
  shows "getConsoleInput fe 1 rrv 1 rec =
           (None, replicate (unat (repeat (parseKey (data rec))))
                    (NewEventKey KeyBacktab 0 ModNone))"
  using assms(3-6)
  by (simp add: getConsoleInput_key [OF assms(1,2)] keyEvents_def post_repeat_replicate
      vkTab_def not_less)

theorem C5_shift_tab_backtab_witness:
  "rtyp shift_tab_record = keyEvent \<and> (1 :: 64 word) \<noteq> 0
   \<and> isdown (parseKey (data shift_tab_record)) \<noteq> 0
   \<and> repeat (parseKey (data shift_tab_record)) \<ge> 1
   \<and> mod2mask (kr_mod (parseKey (data shift_tab_record))) = ModShift
   \<and> ch (parseKey (data shift_tab_record)) = vkTab
   \<and> getConsoleInput False 1 1 1 shift_tab_record =
       (None, [NewEventKey KeyBacktab 0 ModNone, NewEventKey KeyBacktab 0 ModNone,
               NewEventKey KeyBacktab 0 ModNone])"
proof -
  have a: "rtyp shift_tab_record = keyEvent" by (simp add: shift_tab_record_def keyEvent_def)
  have b: "(1 :: 64 word) \<noteq> 0" by simp
  have c: "isdown (parseKey (data shift_tab_record)) \<noteq> 0" by (simp add: shift_tab_parse)
  have d: "repeat (parseKey (data shift_tab_record)) \<ge> 1" by (simp add: shift_tab_parse)
  have e: "mod2mask (kr_mod (parseKey (data shift_tab_record))) = ModShift"
    by (simp add: shift_tab_parse mod2mask_def Let_def ModNone_def)
  have f: "ch (parseKey (data shift_tab_record)) = vkTab"
    by (simp add: shift_tab_parse vkTab_def)
  have g: "replicate (unat (repeat (parseKey (data shift_tab_record)))) x = [x, x, x]" for x :: Event
  proof -
    have "replicate 3 x = [x, x, x]" by code_simp
    then show ?thesis by (simp add: shift_tab_parse)
  qed
  from C5_shift_tab_backtab [OF a b c d e f, of False] a b c d e f g
  show ?thesis by simp
qed

lemma HasKey_iff:
  "HasKey k \<longleftrightarrow> k \<in> set [KeyBackspace, KeyTab, KeyEscape, KeyPause, KeyPrint, KeyPgUp, KeyPgDn,
      KeyEnter, KeyEnd, KeyHome, KeyLeft, KeyUp, KeyRight, KeyDown, KeyInsert, KeyDelete,
      KeyF1, KeyF2, KeyF3, KeyF4, KeyF5, KeyF6, KeyF7, KeyF8, KeyF9, KeyF10, KeyF11, KeyF12,
      KeyRune]"
  by (cases k) (simp_all add: HasKey_def valid_def)

lemma keyEvents_vk:
  assumes "vkKeys vk = Some k" "isdown krec \<noteq> 0" "repeat krec \<ge> 1" "ch krec = 0"
    and "kcode krec = vk"
  shows "keyEvents krec =
           replicate (unat (repeat krec)) (NewEventKey k 0 (mod2mask (kr_mod krec)))"
  using assms by (simp add: keyEvents_def post_repeat_replicate not_less)

lemma vkKeys_F:
  "vkKeys 0x7c = Some KeyF13" "vkKeys 0x7d = Some KeyF14" "vkKeys 0x7e = Some KeyF15"
  "vkKeys 0x7f = Some KeyF16" "vkKeys 0x80 = Some KeyF17" "vkKeys 0x81 = Some KeyF18"
  "vkKeys 0x82 = Some KeyF19" "vkKeys 0x83 = Some KeyF20" "vkKeys 0x84 = Some KeyF21"
  "vkKeys 0x85 = Some KeyF22" "vkKeys 0x86 = Some KeyF23" "vkKeys 0x87 = Some KeyF24"
  by (simp_all add: vkKeys_def vk_defs)

text \<open>
  C9. \<open>HasKey\<close> is false for each of F13..F24, although the decoder's table maps a
  virtual key code in 0x7c..0x87 to each of them and posts its key event for a key-down
  record with no character; \<open>HasKey\<close> is true exactly for the 28 keys of the fixed set
  that ends at F12, and \<open>KeyRune\<close>.
\<close>

theorem C9_no_HasKey_for_F13_to_F24:
  "(\<forall>k \<in> set [KeyF13, KeyF14, KeyF15, KeyF16, KeyF17, KeyF18, KeyF19, KeyF20, KeyF21,
                 KeyF22, KeyF23, KeyF24].
      \<not> HasKey k
      \<and> (\<exists>vk. 0x7c \<le> vk \<and> vk \<le> 0x87 \<and> vkKeys vk = Some k
            \<and> (\<forall>krec. isdown krec \<noteq> 0 \<and> repeat krec \<ge> 1 \<and> ch krec = 0 \<and> kcode krec = vk
                 \<longrightarrow> keyEvents krec = replicate (unat (repeat krec))
                                         (NewEventKey k 0 (mod2mask (kr_mod krec))))))
   \<and> (\<forall>k. HasKey k \<longleftrightarrow> k \<in> set [KeyBackspace, KeyTab, KeyEscape, KeyPause, KeyPrint, KeyPgUp,
            KeyPgDn, KeyEnter, KeyEnd, KeyHome, KeyLeft, KeyUp, KeyRight, KeyDown, KeyInsert,
            KeyDelete, KeyF1, KeyF2, KeyF3, KeyF4, KeyF5, KeyF6, KeyF7, KeyF8, KeyF9, KeyF10,
            KeyF11, KeyF12, KeyRune])"
proof -
  have dec: "\<exists>vk. 0x7c \<le> vk \<and> vk \<le> 0x87 \<and> vkKeys vk = Some k
            \<and> (\<forall>krec. isdown krec \<noteq> 0 \<and> repeat krec \<ge> 1 \<and> ch krec = 0 \<and> kcode krec = vk
                 \<longrightarrow> keyEvents krec = replicate (unat (repeat krec))
                                         (NewEventKey k 0 (mod2mask (kr_mod krec))))"
    if "vkKeys v = Some k" "0x7c \<le> v" "v \<le> 0x87" for v k
    using that keyEvents_vk [OF that(1)] by blast
  show ?thesis
    using dec [OF vkKeys_F(1)] dec [OF vkKeys_F(2)] dec [OF vkKeys_F(3)] dec [OF vkKeys_F(4)]
      dec [OF vkKeys_F(5)] dec [OF vkKeys_F(6)] dec [OF vkKeys_F(7)] dec [OF vkKeys_F(8)]
      dec [OF vkKeys_F(9)] dec [OF vkKeys_F(10)] dec [OF vkKeys_F(11)] dec [OF vkKeys_F(12)]
    by (simp add: HasKey_iff)
qed

theorem C9_no_HasKey_for_F13_to_F24_witness:
  "\<not> HasKey KeyF13 \<and> \<not> HasKey KeyF24 \<and> HasKey KeyF12 \<and> HasKey KeyRune
   \<and> keyEvents \<lparr> isdown = 1, repeat = 1, kcode = 0x7c, scode = 0x64, ch = 0, kr_mod = 0 \<rparr>
       = [NewEventKey KeyF13 0 0]"
proof -
  have "keyEvents \<lparr> isdown = 1, repeat = 1, kcode = 0x7c, scode = 0x64, ch = 0, kr_mod = 0 \<rparr>
       = [NewEventKey KeyF13 0 0]"
    using keyEvents_vk [OF vkKeys_F(1),
        of "\<lparr> isdown = 1, repeat = 1, kcode = 0x7c, scode = 0x64, ch = 0, kr_mod = 0 \<rparr>"]
    by (simp add: mod2mask_def Let_def ModNone_def)
  with C9_no_HasKey_for_F13_to_F24 show ?thesis by simp
qed

subsection \<open>Cursor\<close>

lemma quiet_setCursorInfo [simp]: "quiet (setCursorInfo i s) = quiet s"
  by (simp add: setCursorInfo_def)

lemma hideCursor_quiet: "hideCursor s = Some s' \<Longrightarrow> quiet s' = quiet s"
  by (auto simp: hideCursor_def dest: emitVtString_quiet split: if_splits)

lemma showCursor_quiet: "showCursor s = Some s' \<Longrightarrow> quiet s' = quiet s"
  unfolding showCursor_def
  by (auto dest!: emitVtString_quiet split: if_splits prod.splits Option.bind_splits)

lemma doCursor_quiet: "doCursor s = Some s' \<Longrightarrow> quiet s' = quiet s"
  unfolding doCursor_def Let_def
  by (auto dest!: hideCursor_quiet showCursor_quiet setCursorPos_quiet
      split: if_splits Option.bind_splits)

lemma vtCursorStyles_None_iff:
  "vtCursorStyles cs = None \<longleftrightarrow>
     cs \<notin> {CursorStyleDefault, CursorStyleBlinkingBlock, CursorStyleSteadyBlock,
            CursorStyleBlinkingUnderline, CursorStyleSteadyUnderline,
            CursorStyleBlinkingBar, CursorStyleSteadyBar}"
  by (simp add: vtCursorStyles_def)

lemma quiet_cursor:
  assumes "quiet s' = quiet s"
  shows "cursorStyle s' = cursorStyle s" "cursorColor s' = cursorColor s"
proof -
  have "cursorStyle (quiet s') = cursorStyle (quiet s)" "cursorColor (quiet s') = cursorColor (quiet s)"
    using assms by simp_all
  then show "cursorStyle s' = cursorStyle s" "cursorColor s' = cursorColor s"
    by (simp_all add: quiet_def)
qed

text \<open>
  C10. \<open>SetCursor\<close> with a style that is not a key of \<open>vtCursorStyles\<close> (that is, not
  one of the seven known styles) returns the screen as it was: neither the stored style
  nor the stored color changes and nothing is sent to the console. Whenever a call does
  change the stored color, the style was a known one and was stored with it.
\<close>

theorem C10_SetCursor_unknown_style:
  "(vtCursorStyles cs = None \<longrightarrow> SetCursor cs cc s = Some s)
   \<and> (vtCursorStyles cs = None \<longleftrightarrow>
        cs \<notin> {CursorStyleDefault, CursorStyleBlinkingBlock, CursorStyleSteadyBlock,
               CursorStyleBlinkingUnderline, CursorStyleSteadyUnderline,
               CursorStyleBlinkingBar, CursorStyleSteadyBar})
   \<and> (\<forall>s'. SetCursor cs cc s = Some s' \<and> cursorColor s' \<noteq> cursorColor s
          \<longrightarrow> vtCursorStyles cs \<noteq> None \<and> cursorStyle s' = cs \<and> cursorColor s' = cc)"
proof (intro conjI allI impI)
  assume "vtCursorStyles cs = None"
  then show "SetCursor cs cc s = Some s" by (simp add: SetCursor_def)
next
  show "vtCursorStyles cs = None \<longleftrightarrow>
        cs \<notin> {CursorStyleDefault, CursorStyleBlinkingBlock, CursorStyleSteadyBlock,
               CursorStyleBlinkingUnderline, CursorStyleSteadyUnderline,
               CursorStyleBlinkingBar, CursorStyleSteadyBar}"
    by (rule vtCursorStyles_None_iff)
next
  fix s' assume a: "SetCursor cs cc s = Some s' \<and> cursorColor s' \<noteq> cursorColor s"
  then have ne: "vtCursorStyles cs \<noteq> None" and nf: "\<not> fini s"
    by (auto simp: SetCursor_def split: if_splits option.splits)
  with a have "doCursor (s \<lparr> cursorStyle := cs, cursorColor := cc \<rparr>) = Some s'"
    by (auto simp: SetCursor_def)
  from quiet_cursor [OF doCursor_quiet [OF this]]
  have "cursorStyle s' = cs" "cursorColor s' = cc" by simp_all
  with ne show "vtCursorStyles cs \<noteq> None" "cursorStyle s' = cs" "cursorColor s' = cc"
    by simp_all
qed

theorem C10_SetCursor_unknown_style_witness:
  "vtCursorStyles 7 = None
   \<and> SetCursor 7 ColorRed (NewConsoleScreen legacy_host) = Some (NewConsoleScreen legacy_host)"
proof -
  have "vtCursorStyles 7 = None" by (simp add: vtCursorStyles_def CursorStyle_defs)
  with C10_SetCursor_unknown_style [of 7 ColorRed "NewConsoleScreen legacy_host"]
  show ?thesis by simp
qed

subsection \<open>The style translator\<close>

lemma vgaColors_nibble: "vgaColors c = Some v \<Longrightarrow> v AND 0xf = v"
  by (auto simp: vgaColors_def split: if_splits)

lemma mapColor2RGB_nibble: "fst (mapColor2RGB c s) AND 0xf = fst (mapColor2RGB c s)"
  by (auto simp: mapColor2RGB_def Let_def split: option.splits dest: vgaColors_nibble)

lemma mapColor2RGB_again:
  "fst (mapColor2RGB b (snd (mapColor2RGB f s))) = fst (mapColor2RGB b s)"
  by (auto simp: mapColor2RGB_def Let_def split: option.splits)

lemma quiet_oscreen: "quiet s' = quiet s \<Longrightarrow> oscreen s' = oscreen s"
proof -
  assume "quiet s' = quiet s"
  then have "oscreen (quiet s') = oscreen (quiet s)" by simp
  then show ?thesis by (simp add: quiet_def)
qed

lemma mapStyle_attr:
  "fst (mapStyle sty s) =
    (let attr = (if attrs sty AND AttrReverse \<noteq> 0
                 then bg_nibble sty s OR push_bit 4 (fg_nibble sty s)
                 else fg_nibble sty s OR push_bit 4 (bg_nibble sty s));
         attr = (if attrs sty AND AttrBold \<noteq> 0 then attr OR 0x8 else attr);
         attr = (if attrs sty AND AttrDim \<noteq> 0 then attr AND NOT 0x8 else attr);
         attr = (if attrs sty AND AttrUnderline \<noteq> 0 then attr OR 0x8000 else attr)
     in attr)"
proof -
  obtain v1 s1 where 1: "mapColor2RGB (fg sty) s = (v1, s1)" by (metis surj_pair)
  have 2: "fst (mapColor2RGB (bg sty) s1) = fst (mapColor2RGB (bg sty) s)"
    using mapColor2RGB_again [of "bg sty" "fg sty" s] 1 by simp
  obtain v2 s2 where 3: "mapColor2RGB (bg sty) s1 = (v2, s2)" by (metis surj_pair)
  obtain v3 s3 where 4: "mapColor2RGB (bg sty) s = (v3, s3)" by (metis surj_pair)
  from 2 3 4 have 5: "v3 = v2" by simp
  show ?thesis
    unfolding mapStyle_def fg_nibble_def bg_nibble_def Let_def
    using 1 3 4 5 by (simp split: prod.splits)
qed

lemma nibble_take: "(v :: 16 word) AND 0xf = v \<Longrightarrow> take_bit 4 v = v"
  by (simp add: take_bit_eq_mask mask_eq_exp_minus_1)

lemma below_16:
  "(n::nat) < 16 \<Longrightarrow> n \<in> {15, 14, 13, 12, 11, 10, 9, 8, 7, 6, 5, 4, 3, 2, 1, 0}"
  unfolding insert_iff empty_iff by arith

lemma word16_eqI:
  fixes a b :: "16 word"
  assumes "bit a 0 = bit b 0" "bit a 1 = bit b 1" "bit a 2 = bit b 2" "bit a 3 = bit b 3"
    "bit a 4 = bit b 4" "bit a 5 = bit b 5" "bit a 6 = bit b 6" "bit a 7 = bit b 7"
    "bit a 8 = bit b 8" "bit a 9 = bit b 9" "bit a 10 = bit b 10" "bit a 11 = bit b 11"
    "bit a 12 = bit b 12" "bit a 13 = bit b 13" "bit a 14 = bit b 14" "bit a 15 = bit b 15"
  shows "a = b"
proof (rule bit_eqI)
  fix n assume "possible_bit TYPE(16 word) n"
  then have "n < 16" by (simp add: possible_bit_word)
  from below_16 [OF this] assms show "bit a n = bit b n" by auto
qed

lemma attr_bits:
  fixes lo hi :: "16 word" and bold dim ul :: bool
  assumes "take_bit 4 lo = lo" "take_bit 4 hi = hi"
  defines "attr \<equiv> (let attr = lo OR push_bit 4 hi;
         attr = (if bold then attr OR 0x8 else attr);
         attr = (if dim then attr AND NOT 0x8 else attr);
         attr = (if ul then attr OR 0x8000 else attr)
     in attr)"
  shows "attr AND 0x7f00 = 0"
    and "drop_bit 4 attr AND 0xf = hi"
    and "attr AND 0x7 = lo AND 0x7"
    and "attr AND 0x8 = (if dim then 0 else if bold then 0x8 else lo AND 0x8)"
    and "attr AND 0x8000 = (if ul then 0x8000 else 0)"
proof -
  obtain l h where lh: "lo = take_bit 4 l" "hi = take_bit 4 h" using assms(1,2) by metis
  show "attr AND 0x7f00 = 0"
    unfolding attr_def Let_def lh
    by (cases bold; cases dim; cases ul; simp only: if_True if_False; rule word16_eqI;
        simp add: bit_simps)
  show "drop_bit 4 attr AND 0xf = hi"
    unfolding attr_def Let_def lh
    by (cases bold; cases dim; cases ul; simp only: if_True if_False; rule word16_eqI;
        simp add: bit_simps)
  show "attr AND 0x7 = lo AND 0x7"
    unfolding attr_def Let_def lh
    by (cases bold; cases dim; cases ul; simp only: if_True if_False; rule word16_eqI;
        simp add: bit_simps)
  show "attr AND 0x8 = (if dim then 0 else if bold then 0x8 else lo AND 0x8)"
    unfolding attr_def Let_def lh
    by (cases bold; cases dim; cases ul; simp only: if_True if_False; rule word16_eqI;
        simp add: bit_simps)
  show "attr AND 0x8000 = (if ul then 0x8000 else 0)"
    unfolding attr_def Let_def lh
    by (cases bold; cases dim; cases ul; simp only: if_True if_False; rule word16_eqI;
        simp add: bit_simps)
qed

lemma nibble_le: "(v :: 16 word) AND 0xf = v \<Longrightarrow> v \<le> 0xf"
  by (metis word_and_le1)

lemma fg_nibble_nibble: "fg_nibble sty s AND 0xf = fg_nibble sty s"
  by (simp add: fg_nibble_def mapColor2RGB_nibble and.assoc)

lemma bg_nibble_nibble: "bg_nibble sty s AND 0xf = bg_nibble sty s"
  by (simp add: bg_nibble_def mapColor2RGB_nibble and.assoc)

text \<open>
  C6. The attribute word of \<open>mapStyle\<close>: with \<open>fa\<close> and \<open>ba\<close> the foreground and
  background indices (a color that is neither default nor reset mapped by
  \<open>mapColor2RGB\<close>, else the low nibble, respectively the next nibble, of the attribute
  word captured at \<open>Init\<close>), both are at most 15; the word has no bit outside the two
  nibbles and bit 0x8000; under reverse the high nibble is \<open>fa\<close> and the low nibble comes
  from \<open>ba\<close>, otherwise the other way round; bit 0x8 of the low nibble (after the swap) is
  cleared by dim, else set by bold, else left; bit 0x8000 is set exactly by underline.
\<close>

theorem C6_mapStyle_nibbles:
  "let attr = fst (mapStyle sty s);
       fa = (if fg sty = ColorDefault \<or> fg sty = ColorReset
             then ci_attrs (oscreen s) AND 0xf else fst (mapColor2RGB (fg sty) s));
       ba = (if bg sty = ColorDefault \<or> bg sty = ColorReset
             then drop_bit 4 (ci_attrs (oscreen s)) AND 0xf
             else fst (mapColor2RGB (bg sty) s));
       lo = (if attrs sty AND AttrReverse \<noteq> 0 then ba else fa);
       hi = (if attrs sty AND AttrReverse \<noteq> 0 then fa else ba)
   in fa \<le> 0xf \<and> ba \<le> 0xf
      \<and> attr AND 0x7f00 = 0
      \<and> drop_bit 4 attr AND 0xf = hi
      \<and> attr AND 0x7 = lo AND 0x7
      \<and> attr AND 0x8 = (if attrs sty AND AttrDim \<noteq> 0 then 0
                         else if attrs sty AND AttrBold \<noteq> 0 then 0x8 else lo AND 0x8)
      \<and> attr AND 0x8000 = (if attrs sty AND AttrUnderline \<noteq> 0 then 0x8000 else 0)"
proof -
  let ?fa = "fg_nibble sty s" and ?ba = "bg_nibble sty s"
  let ?lo = "if attrs sty AND AttrReverse \<noteq> 0 then ?ba else ?fa"
  let ?hi = "if attrs sty AND AttrReverse \<noteq> 0 then ?fa else ?ba"
  have lo: "take_bit 4 ?lo = ?lo" and hi: "take_bit 4 ?hi = ?hi"
    using nibble_take [OF fg_nibble_nibble [of sty s]] nibble_take [OF bg_nibble_nibble [of sty s]]
    by simp_all
  have attr: "fst (mapStyle sty s) =
    (let attr = ?lo OR push_bit 4 ?hi;
         attr = (if attrs sty AND AttrBold \<noteq> 0 then attr OR 0x8 else attr);
         attr = (if attrs sty AND AttrDim \<noteq> 0 then attr AND NOT 0x8 else attr);
         attr = (if attrs sty AND AttrUnderline \<noteq> 0 then attr OR 0x8000 else attr)
     in attr)"
    by (simp add: mapStyle_attr Let_def)
  note b = attr_bits [OF lo hi, of "attrs sty AND AttrBold \<noteq> 0" "attrs sty AND AttrDim \<noteq> 0"
      "attrs sty AND AttrUnderline \<noteq> 0", folded attr]
  have le: "?fa \<le> 0xf" "?ba \<le> 0xf"
    using nibble_le [OF fg_nibble_nibble [of sty s]] nibble_le [OF bg_nibble_nibble [of sty s]]
    by simp_all
  show ?thesis
    unfolding Let_def fg_nibble_def [symmetric] bg_nibble_def [symmetric]
    using b le by simp
qed

theorem C6_mapStyle_nibbles_witness:
  "fst (mapStyle reverse_bold_red attr_screen) = 0xc9"
proof -
  have a: "attrs reverse_bold_red AND AttrReverse \<noteq> 0" "attrs reverse_bold_red AND AttrBold \<noteq> 0"
    "attrs reverse_bold_red AND AttrDim = 0" "attrs reverse_bold_red AND AttrUnderline = 0"
    by (simp_all add: reverse_bold_red_def AttrReverse_def AttrBold_def AttrDim_def
        AttrUnderline_def)
  have f: "fg reverse_bold_red = ColorRed" "bg reverse_bold_red = ColorDefault"
    by (simp_all add: reverse_bold_red_def StyleDefault_def)
  have m: "fst (mapColor2RGB ColorRed attr_screen) = 0xc"
    by (simp add: mapColor2RGB_def attr_screen_def NewConsoleScreen_def winColors_init_def
        winPalette_def vgaColors_def color_defs)
  have o: "ci_attrs (oscreen attr_screen) = 0x17"
    by (simp add: attr_screen_def)
  have "fst (mapStyle reverse_bold_red attr_screen) = 0xc9"
    by (simp add: mapStyle_attr Let_def a fg_nibble_def bg_nibble_def f m [unfolded color_defs] o
        color_defs)
  with C6_mapStyle_nibbles [of reverse_bold_red attr_screen] show ?thesis by simp
qed

subsection \<open>Geometry\<close>

lemma calls_try_post [simp]: "calls (try_post ev s) = calls s"
  by (simp add: try_post_def split: option.splits)

lemma calls_resize: "\<exists>cs. calls (resize s) = calls s @ cs"
  by (simp add: resize_def Let_def setBufferSize_def emit_def)

lemma legacy_largest: "largest_window legacy_host cs = 0x00320078"
  by (simp add: legacy_host_def)

lemma tall_largest: "largest_window tall_host cs = 0x02580078"
  by (simp add: tall_host_def legacy_host_def)

lemma zero_largest: "largest_window zero_host cs = 0"
  by (simp add: zero_host_def legacy_host_def)

lemma NewConsoleScreen_simps [simp]:
  "hst (NewConsoleScreen hs) = hs" "calls (NewConsoleScreen hs) = []"
  by (simp_all add: NewConsoleScreen_def)

lemma SetSize_small:
  assumes "largest_window hs [] = xy" "uint (xy AND 0xffff) = x" "uint (drop_bit 16 xy) = y"
    and "0 < x" "x < 500" "y \<noteq> 0"
  shows "\<exists>cs. calls (SetSize wd ht (NewConsoleScreen hs)) =
           [SetConsoleScreenBufferSize \<lparr> co_x = word_of_int x, co_y = word_of_int y \<rparr>,
            SetConsoleWindowInfo \<lparr> r_left = 0, r_top = 0, r_right = word_of_int (wd - 1),
                                   r_bottom = word_of_int (ht - 1) \<rparr>] @ cs"
proof -
  let ?s1 = "(NewConsoleScreen hs) \<lparr> calls :=
               [SetConsoleScreenBufferSize \<lparr> co_x = word_of_int x, co_y = word_of_int y \<rparr>,
                SetConsoleWindowInfo \<lparr> r_left = 0, r_top = 0, r_right = word_of_int (wd - 1),
                                       r_bottom = word_of_int (ht - 1) \<rparr>] \<rparr>"
  from assms have "SetSize wd ht (NewConsoleScreen hs) = resize ?s1"
    by (simp add: SetSize_def Let_def setBufferSize_small emit_def)
  moreover obtain cs where "calls (resize ?s1) = calls ?s1 @ cs" using calls_resize by blast
  ultimately show ?thesis by simp
qed

text \<open>
  C2, as the code has it. With \<open>x\<close> and \<open>y\<close> the low and the high 16 bits of what
  \<open>GetLargestConsoleWindowSize\<close> returns: when either is 0, or \<open>x\<close> (the width alone)
  is above 500, \<open>SetSize\<close> changes nothing; when \<open>0 < x < 500\<close> and \<open>y\<close> is not 0, it
  sets the buffer size to the largest window size \<open>(x, y)\<close>, the window rectangle to
  \<open>(0, 0, w - 1, h - 1)\<close>, and then resettles with \<open>resize\<close>.
\<close>

theorem C2_SetSize_amended:
  "let xy = largest_window (hst s) (calls s);
       x = uint (xy AND 0xffff);
       y = uint (drop_bit 16 xy)
   in (x = 0 \<or> y = 0 \<or> x > 500 \<longrightarrow> SetSize wd ht s = s)
      \<and> (0 < x \<and> x < 500 \<and> y \<noteq> 0 \<longrightarrow>
           SetSize wd ht s =
             resize (s \<lparr> calls := calls s @
               [SetConsoleScreenBufferSize \<lparr> co_x = word_of_int x, co_y = word_of_int y \<rparr>,
                SetConsoleWindowInfo \<lparr> r_left = 0, r_top = 0, r_right = word_of_int (wd - 1),
                                       r_bottom = word_of_int (ht - 1) \<rparr>] \<rparr>))"
  by (auto simp: SetSize_def Let_def setBufferSize_small emit_def)

theorem C2_SetSize_amended_witness:
  "uint (largest_window legacy_host [] AND 0xffff) = 120
   \<and> uint (drop_bit 16 (largest_window legacy_host [])) = 50
   \<and> take 2 (calls (SetSize 80 25 (NewConsoleScreen legacy_host))) =
       [SetConsoleScreenBufferSize \<lparr> co_x = 120, co_y = 50 \<rparr>,
        SetConsoleWindowInfo \<lparr> r_left = 0, r_top = 0, r_right = 79, r_bottom = 24 \<rparr>]
   \<and> uint (largest_window zero_host [] AND 0xffff) = 0
   \<and> SetSize 80 25 (NewConsoleScreen zero_host) = NewConsoleScreen zero_host"
proof -
  let ?s1 = "(NewConsoleScreen legacy_host) \<lparr> calls :=
               [SetConsoleScreenBufferSize \<lparr> co_x = 120, co_y = 50 \<rparr>,
                SetConsoleWindowInfo \<lparr> r_left = 0, r_top = 0, r_right = 79, r_bottom = 24 \<rparr>] \<rparr>"
  have "SetSize 80 25 (NewConsoleScreen legacy_host) = resize ?s1"
    using C2_SetSize_amended [of "NewConsoleScreen legacy_host" 80 25]
    by (simp add: Let_def legacy_largest)
  moreover obtain cs where "calls (resize ?s1) = calls ?s1 @ cs" using calls_resize by blast
  ultimately have "take 2 (calls (SetSize 80 25 (NewConsoleScreen legacy_host))) =
       [SetConsoleScreenBufferSize \<lparr> co_x = 120, co_y = 50 \<rparr>,
        SetConsoleWindowInfo \<lparr> r_left = 0, r_top = 0, r_right = 79, r_bottom = 24 \<rparr>]"
    by simp
  moreover have "SetSize 80 25 (NewConsoleScreen zero_host) = NewConsoleScreen zero_host"
    using C2_SetSize_amended [of "NewConsoleScreen zero_host" 80 25]
    by (simp add: Let_def zero_largest)
  ultimately show ?thesis by (simp add: legacy_largest zero_largest)
qed

text \<open>
  C2 as claimed fails. With a largest window of 120 by 50, \<open>SetSize 80 25\<close> first sets
  the buffer size to 120 by 50, not to the 80 by 25 asked for. With a largest window of
  120 by 600 (a dimension above 500) the call is not a no-op. With a largest window
  reported as 0 (below the threshold) the call is a no-op.
\<close>

theorem C2_SetSize_counterexample:
  "take 2 (calls (SetSize 80 25 (NewConsoleScreen legacy_host))) =
     [SetConsoleScreenBufferSize \<lparr> co_x = 120, co_y = 50 \<rparr>,
      SetConsoleWindowInfo \<lparr> r_left = 0, r_top = 0, r_right = 79, r_bottom = 24 \<rparr>]
   \<and> uint (drop_bit 16 (largest_window tall_host [])) = 600
   \<and> SetSize 80 25 (NewConsoleScreen tall_host) \<noteq> NewConsoleScreen tall_host
   \<and> uint (largest_window zero_host [] AND 0xffff) = 0
   \<and> SetSize 80 25 (NewConsoleScreen zero_host) = NewConsoleScreen zero_host"
proof -
  obtain cs where "calls (SetSize 80 25 (NewConsoleScreen legacy_host)) =
           [SetConsoleScreenBufferSize \<lparr> co_x = word_of_int 120, co_y = word_of_int 50 \<rparr>,
            SetConsoleWindowInfo \<lparr> r_left = 0, r_top = 0, r_right = word_of_int (80 - 1),
                                   r_bottom = word_of_int (25 - 1) \<rparr>] @ cs"
    using SetSize_small [of legacy_host "0x00320078" 120 50 80 25]
    by (auto simp: legacy_largest)
  then have a: "take 2 (calls (SetSize 80 25 (NewConsoleScreen legacy_host))) =
     [SetConsoleScreenBufferSize \<lparr> co_x = 120, co_y = 50 \<rparr>,
      SetConsoleWindowInfo \<lparr> r_left = 0, r_top = 0, r_right = 79, r_bottom = 24 \<rparr>]"
    by simp
  obtain cs' where "calls (SetSize 80 25 (NewConsoleScreen tall_host)) =
           [SetConsoleScreenBufferSize \<lparr> co_x = word_of_int 120, co_y = word_of_int 600 \<rparr>,
            SetConsoleWindowInfo \<lparr> r_left = 0, r_top = 0, r_right = word_of_int (80 - 1),
                                   r_bottom = word_of_int (25 - 1) \<rparr>] @ cs'"
    using SetSize_small [of tall_host "0x02580078" 120 600 80 25]
    by (auto simp: tall_largest)
  then have "calls (SetSize 80 25 (NewConsoleScreen tall_host)) \<noteq> calls (NewConsoleScreen tall_host)"
    by simp
  then have b: "SetSize 80 25 (NewConsoleScreen tall_host) \<noteq> NewConsoleScreen tall_host"
    by auto
  have c: "SetSize 80 25 (NewConsoleScreen zero_host) = NewConsoleScreen zero_host"
    by (simp add: SetSize_def Let_def zero_largest)
  from a b c show ?thesis by (simp add: tall_largest zero_largest)
qed

subsection \<open>The environment switches of Init\<close>

lemma vtOutputModes_value: "vtOutputModes = 0x1d"
  by (simp add: vtOutputModes_def modeVtOutput_def modeNoAutoNL_def modeCookedOut_def
      modeUnderline_def)

lemma truecolor_resize [simp]: "truecolor (resize s) = truecolor s"
  by (simp add: resize_def Let_def setBufferSize_def emit_def try_post_def split: option.splits)

lemma vten_resize [simp]: "vten (resize s) = vten s"
  by (simp add: resize_def Let_def setBufferSize_def emit_def try_post_def split: option.splits)

lemma hst_resize [simp]: "hst (resize s) = hst s"
  by (simp add: resize_def Let_def setBufferSize_def emit_def try_post_def split: option.splits)

lemma out_mode_hosts [simp]:
  "out_mode vt_host cs = Some 0x1f" "out_mode legacy_host cs = Some 0x3"
  by (simp_all add: vt_host_def legacy_host_def)

lemmas Init_setup_eval =
  Init_setup_def env_truecolor_def env_vtmode_def env_altscreen_def Let_def setOutMode_def
  setInMode_def emit_def vtOutputModes_value getOutMode_def modeVtOutput_def
  env_disable_def env_enable_def env_enable_novt_def

text \<open>
  C8, as the code has it. With \<open>TCELL_TRUECOLOR=disable\<close> the truecolor flag is off
  after the setup of \<open>Init\<close>, and the VT path is tried as it would be without the
  variable: unless \<open>ConEmuPID\<close> is set, and subject to \<open>TCELL_VTMODE\<close>. With
  \<open>TCELL_TRUECOLOR=enable\<close> the switch turns both the flag and \<open>tryVt\<close> on; the VT path
  is then tried unless \<open>TCELL_VTMODE=disable\<close>, and the truecolor flag is on after the
  setup unless the path was tried and the console did not keep the VT bit (the setup then
  ends by setting the output mode 0).
\<close>

theorem C8_truecolor_switch:
  "(getenv ''TCELL_TRUECOLOR'' = ''disable'' \<longrightarrow>
      \<not> truecolor (fst (Init_setup getenv s))
      \<and> snd (Init_setup getenv s) = env_vtmode getenv (getenv ''ConEmuPID'' = []))
   \<and> (getenv ''TCELL_TRUECOLOR'' = ''enable'' \<longrightarrow>
      env_truecolor getenv = (True, True)
      \<and> snd (Init_setup getenv s) = (getenv ''TCELL_VTMODE'' \<noteq> ''disable'')
      \<and> (truecolor (fst (Init_setup getenv s)) \<longleftrightarrow>
           getenv ''TCELL_VTMODE'' = ''disable''
           \<or> last (calls (fst (Init_setup getenv s))) \<noteq> SetConsoleModeOut 0))"
  by (auto simp: Init_setup_def env_truecolor_def env_vtmode_def Let_def setOutMode_def
      setInMode_def emit_def vtOutputModes_value split: if_splits)

theorem C8_truecolor_switch_witness:
  "env_disable ''TCELL_TRUECOLOR'' = ''disable''
   \<and> \<not> truecolor (fst (Init_setup env_disable (NewConsoleScreen vt_host)))
   \<and> snd (Init_setup env_disable (NewConsoleScreen vt_host))
   \<and> env_enable ''TCELL_TRUECOLOR'' = ''enable''
   \<and> snd (Init_setup env_enable (NewConsoleScreen vt_host))
   \<and> truecolor (fst (Init_setup env_enable (NewConsoleScreen vt_host)))"
proof -
  have "last (calls (fst (Init_setup env_enable (NewConsoleScreen vt_host)))) \<noteq> SetConsoleModeOut 0"
    by (simp add: Init_setup_eval)
  with C8_truecolor_switch [of env_disable "NewConsoleScreen vt_host"]
       C8_truecolor_switch [of env_enable "NewConsoleScreen vt_host"]
  show ?thesis by (simp add: env_disable_def env_enable_def env_vtmode_def)
qed

text \<open>
  C8 as claimed fails. With only \<open>TCELL_TRUECOLOR=disable\<close> set, on a console that keeps
  the VT bit, the VT path is tried and taken. With \<open>TCELL_TRUECOLOR=enable\<close> and
  \<open>TCELL_VTMODE=disable\<close> the VT path is not tried. With \<open>TCELL_TRUECOLOR=enable\<close> on a
  console that does not keep the VT bit, the truecolor flag is off after the setup.
\<close>

theorem C8_truecolor_switch_counterexample:
  "env_disable ''TCELL_TRUECOLOR'' = ''disable''
   \<and> snd (Init_setup env_disable (NewConsoleScreen vt_host))
   \<and> vten (fst (Init_setup env_disable (NewConsoleScreen vt_host)))
   \<and> env_enable_novt ''TCELL_TRUECOLOR'' = ''enable''
   \<and> \<not> snd (Init_setup env_enable_novt (NewConsoleScreen vt_host))
   \<and> env_enable ''TCELL_TRUECOLOR'' = ''enable''
   \<and> \<not> truecolor (fst (Init_setup env_enable (NewConsoleScreen legacy_host)))"
  by (simp add: Init_setup_eval)

subsection \<open>Lifecycle: the flag fini\<close>

lemma clear_rows_quiet:
  "clear_rows y vt row s = Some s' \<Longrightarrow> quiet s' = quiet s"
proof (induction y vt row s rule: clear_rows.induct)
  case (1 y vt row s)
  show ?case
  proof (cases "y < scr_h s")
    case False
    with 1(2) show ?thesis by (simp add: clear_rows.simps [of y vt row s])
  next
    case True
    with 1(2) obtain s1 s2 where a: "setCursorPos 0 y vt s = Some s1"
      and b: "emitVtString row s1 = Some s2"
      and c: "clear_rows (y + 1) vt row s2 = Some s'"
      by (auto simp: clear_rows.simps [of y vt row s] split: option.splits)
    from 1(1) [OF True a b c] setCursorPos_quiet [OF a] emitVtString_quiet [OF b]
    show ?thesis by simp
  qed
qed

lemma clearScreen_quiet:
  "clearScreen sty vt s = Some s' \<Longrightarrow> quiet s' = quiet s"
  unfolding clearScreen_def sendVtStyle_def Let_def
  by (auto split: if_splits prod.splits Option.bind_splits
      dest!: emitVtString_quiet clear_rows_quiet setCursorPos_quiet mapStyle_quiet)

lemma quiet_fini: "quiet s' = quiet s \<Longrightarrow> fini s' = fini s"
proof -
  assume "quiet s' = quiet s"
  then have "fini (quiet s') = fini (quiet s)" by simp
  then show ?thesis by (simp add: quiet_def)
qed

lemma fini_emit [simp]: "fini (emit c s) = fini s"
  by (simp add: emit_def)

lemma emitVtString_fini: "emitVtString vs s = Some s' \<Longrightarrow> fini s' = fini s"
  by (rule quiet_fini [OF emitVtString_quiet])

lemma clearScreen_fini: "clearScreen sty vt s = Some s' \<Longrightarrow> fini s' = fini s"
  by (rule quiet_fini [OF clearScreen_quiet])

lemma setCursorPos_fini: "setCursorPos x y vt s = Some s' \<Longrightarrow> fini s' = fini s"
  by (rule quiet_fini [OF setCursorPos_quiet])

lemma mapStyle_fini: "mapStyle sty s = (a, s') \<Longrightarrow> fini s' = fini s"
  by (rule quiet_fini [OF mapStyle_quiet])

lemma hideCursor_fini: "hideCursor s = Some s' \<Longrightarrow> fini s' = fini s"
  by (rule quiet_fini [OF hideCursor_quiet])

lemma doCursor_fini: "doCursor s = Some s' \<Longrightarrow> fini s' = fini s"
  by (rule quiet_fini [OF doCursor_quiet])

lemma disengage_fini: "disengage s = Some s' \<Longrightarrow> fini s' = fini s"
  unfolding disengage_def setCursorInfo_def setBufferSize_def setInMode_def setOutMode_def
  by (auto split: if_splits prod.splits Option.bind_splits
      dest!: emitVtString_fini clearScreen_fini setCursorPos_fini mapStyle_fini)

lemma Fini_keeps_fini: "Fini s = Some s' \<Longrightarrow> fini s' = fini s"
  unfolding Fini_def
  by (auto split: if_splits Option.bind_splits dest!: disengage_fini)

lemma fini_resize [simp]: "fini (resize s) = fini s"
  by (simp add: resize_def Let_def setBufferSize_def emit_def try_post_def split: option.splits)

lemma draw_rows_still:
  "draw_rows y s r = Some s' \<Longrightarrow> still s' = still s"
proof (induction y s r rule: draw_rows.induct)
  case (1 y s r)
  show ?case
  proof (cases "y < scr_h s")
    case False
    with 1(2) show ?thesis by (simp add: draw_rows.simps [of y s r])
  next
    case True
    with 1(2) obtain s1 r1 s2 where a: "draw_cols y 0 s r = Some (s1, r1)"
      and b: "writeString (lx r1) (ly r1) (lstyle r1) (wcs r1) s1 = Some s2"
      and c: "draw_rows (y + 1) s2 (r1 \<lparr> wcs := [], lstyle := styleInvalid \<rparr>) = Some s'"
      by (auto simp: draw_rows.simps [of y s r] split: option.splits)
    from 1(1) [OF True a refl b c] draw_cols_frame [OF a]
      quiet_fields(4) [OF writeString_quiet [OF b]]
    show ?thesis by simp
  qed
qed

lemma draw_still: "draw s = Some s' \<Longrightarrow> still s' = still s"
  by (auto simp: draw_def split: if_splits dest: draw_rows_still)

lemma still_fini: "still s' = still s \<Longrightarrow> fini s' = fini s"
proof -
  assume "still s' = still s"
  then have "fini (still s') = fini (still s)" by simp
  then show ?thesis by (simp add: still_def)
qed

lemma draw_fini: "draw s = Some s' \<Longrightarrow> fini s' = fini s"
  by (rule still_fini [OF draw_still])

lemma fini_enableMouse [simp]: "fini (enableMouse b s) = fini s"
  by (simp add: enableMouse_def setInMode_def)

lemma fini_setOutMode [simp]: "fini (setOutMode m s) = fini s"
  by (simp add: setOutMode_def)

lemma engage_fini:
  assumes "engage s = Some (e, s')" shows "fini s' = fini s"
proof (cases "running s \<or> \<not> create_event_ok (hst s) (calls s)")
  case True
  with assms show ?thesis by (auto simp: engage_def Let_def split: if_splits)
next
  case False
  let ?s0 = "enableMouse (mouseEnabled s) (s \<lparr> stopQ := Some False, running := True \<rparr>)"
  let ?blk = "if vten ?s0 then do {
                     s \<leftarrow> Some (setOutMode vtOutputModes ?s0);
                     s \<leftarrow> (if \<not> disableAlt s then do {
                             s \<leftarrow> emitVtString vtSaveTitle s;
                             emitVtString vtEnterCA s
                           } else Some s);
                     s \<leftarrow> emitVtString vtDisableAm s;
                     if title s \<noteq> [] then emitVtString (vtSetTitle (title s)) s else Some s
                   } else Some (setOutMode 0 ?s0)"
  from assms False obtain s1 s2 s3 s4 s5 where
    1: "?blk = Some s1" and 2: "clearScreen (style s1) (vten s1) s1 = Some s2"
    and 3: "hideCursor s2 = Some s3"
    and 4: "hideCursor (s3 \<lparr> cells := Invalidate (cells s3) \<rparr>) = Some s4"
    and 5: "draw (resize s4) = Some s5" and 6: "doCursor s5 = Some s'"
    by (simp add: engage_def Let_def bind_eq_Some_conv cong: if_cong) blast
  have "fini s1 = fini s"
  proof (cases "vten ?s0")
    case False
    with 1 show ?thesis by auto
  next
    case True
    with 1 obtain sa sb where a: "(if \<not> disableAlt (setOutMode vtOutputModes ?s0) then do {
                             s \<leftarrow> emitVtString vtSaveTitle (setOutMode vtOutputModes ?s0);
                             emitVtString vtEnterCA s
                           } else Some (setOutMode vtOutputModes ?s0)) = Some sa"
      and b: "emitVtString vtDisableAm sa = Some sb"
      and c: "(if title sb \<noteq> [] then emitVtString (vtSetTitle (title sb)) sb else Some sb) = Some s1"
      by (simp add: bind_eq_Some_conv cong: if_cong) blast
    from a have "fini sa = fini s"
      by (auto simp: bind_eq_Some_conv split: if_splits dest!: emitVtString_fini)
    moreover from c have "fini s1 = fini sb"
      by (auto split: if_splits dest!: emitVtString_fini)
    ultimately show ?thesis using emitVtString_fini [OF b] by simp
  qed
  with clearScreen_fini [OF 2] hideCursor_fini [OF 3] hideCursor_fini [OF 4] draw_fini [OF 5]
    doCursor_fini [OF 6]
  show ?thesis by simp
qed

lemma Init_setup_fini: "\<not> fini (fst (Init_setup getenv s))"
  by (simp add: Init_setup_def Let_def setInMode_def setOutMode_def split: prod.splits)

lemma Init_not_fini: "Init getenv s = Some (None, s') \<Longrightarrow> \<not> fini s'"
  unfolding Init_def Let_def
  by (auto split: if_splits dest!: engage_fini simp: Init_setup_fini)

lemma Init_Fini_not_fini:
  "Init getenv s = Some (None, s1) \<Longrightarrow> Fini s1 = Some s2 \<Longrightarrow> \<not> fini s2"
  using Init_not_fini Fini_keeps_fini by blast

lemmas eval_defs =
  Init_def Init_setup_def env_truecolor_def env_vtmode_def env_altscreen_def Let_def
  setOutMode_def setInMode_def emit_def vtOutputModes_value getOutMode_def getInMode_def
  getCursorInfo_def getConsoleInfo_def modeVtOutput_def modeResizeEn_def modeExtendFlg_def
  modeMouseEn_def legacy_host_def NewConsoleScreen_def resize_def Resize_def try_post_def
  setBufferSize_def engage_def enableMouse_def clearScreen_def mapStyle_def hideCursor_def
  setCursorInfo_def Invalidate_def draw_def draw_rows.simps draw_cols.simps draw_cell_def
  GetContent_def Dirty_def SetDirty_def cb_inside_def cb_index_def writeString_def
  setCursorPos_def doCursor_def StyleDefault_def styleInvalid_def zero_cell_def
  zero_coord_def zero_consoleInfo_def utf16_Encode_def encode_rune_def AttrInvalid_def
  passed_coord_uintptr
  Fini_def disengage_def Show_def Sync_def ShowCursor_def showCursor_def SetCursor_def
  mapColor2RGB_def

text \<open>
  C1. The guard flag \<open>fini\<close> is read by \<open>Show\<close>, \<open>Sync\<close>, \<open>ShowCursor\<close> and
  \<open>SetCursor\<close>, set to false by \<open>Init\<close>, and set to true nowhere: \<open>Fini\<close> leaves it
  as it was. On a console with a 2 by 1 window that does not keep the VT bit, after
  \<open>Init\<close> (empty environment) and \<open>Fini\<close> the flag is false, \<open>Sync\<close> hides the
  cursor and writes both cells again, and \<open>ShowCursor 0 0\<close> stores the position, moves
  the console cursor and shows it.
\<close>

theorem C1_calls_after_Fini_still_act:
  "do { (e, s1) \<leftarrow> Init (\<lambda>n. []) (NewConsoleScreen legacy_host);
        s2 \<leftarrow> Fini s1;
        s3 \<leftarrow> Sync s2;
        s4 \<leftarrow> ShowCursor 0 0 s2;
        Some (e, fini s2, drop (length (calls s2)) (calls s3), curx s2, curx s4,
              drop (length (calls s2)) (calls s4)) }
   = Some (None, False,
       [SetConsoleCursorInfo \<lparr> cu_size = 1, cu_visible = 0 \<rparr>,
        SetConsoleCursorPosition \<lparr> co_x = 0, co_y = 0 \<rparr>,
        SetConsoleTextAttribute 7, WriteConsole [0, 0],
        SetConsoleCursorInfo \<lparr> cu_size = 1, cu_visible = 0 \<rparr>],
       - 1, 0,
       [SetConsoleCursorPosition \<lparr> co_x = 0, co_y = 0 \<rparr>,
        SetConsoleCursorInfo \<lparr> cu_size = 100, cu_visible = 1 \<rparr>])"
  by (simp add: eval_defs)

subsection \<open>The renderer\<close>

lemma cb_index_in_range:
  assumes "cb_wf cb" "cb_inside cb x y"
  shows "cb_index cb x y < length (cb_cells cb)"
proof -
  from assms(2) have x: "0 \<le> x" "x < cb_w cb" and y: "0 \<le> y" "y < cb_h cb"
    by (simp_all add: cb_inside_def)
  have "y * cb_w cb + x < y * cb_w cb + cb_w cb" using x by simp
  also have "\<dots> = (y + 1) * cb_w cb" by (simp add: algebra_simps)
  also have "\<dots> \<le> cb_h cb * cb_w cb" using y x by (intro mult_right_mono) simp_all
  finally have "y * cb_w cb + x < cb_h cb * cb_w cb" .
  then have "nat (y * cb_w cb + x) < nat (cb_h cb * cb_w cb)" using x y by simp
  also have "\<dots> = nat (cb_w cb) * nat (cb_h cb)"
    using x y by (simp add: nat_mult_distrib mult.commute)
  finally show ?thesis using assms(1) by (simp add: cb_index_def cb_wf_def)
qed

lemma cb_inside_SetDirty [simp]: "cb_inside (SetDirty cb a b v) x y = cb_inside cb x y"
  by (simp add: cb_inside_def SetDirty_def)

lemma cb_index_SetDirty [simp]: "cb_index (SetDirty cb a b v) x y = cb_index cb x y"
  by (simp add: cb_index_def SetDirty_def)

lemma nth_update_dirty:
  "(xs[i := (xs ! i) \<lparr> c_dirty := v \<rparr>]) ! j =
     (if j = i \<and> i < length xs then (xs ! i) \<lparr> c_dirty := v \<rparr> else xs ! j)"
  by (cases "i < length xs") (auto simp: nth_list_update list_update_beyond)

lemma GetContent_SetDirty [simp]: "GetContent (SetDirty cb a b v) x y = GetContent cb x y"
  by (simp add: GetContent_def SetDirty_def cb_inside_def cb_index_def Let_def nth_update_dirty)

lemma Dirty_SetDirty_same:
  "cb_wf cb \<Longrightarrow> cb_inside cb x y \<Longrightarrow> Dirty (SetDirty cb x y v) x y = v"
  using cb_index_in_range [of cb x y]
  by (simp add: Dirty_def SetDirty_def cb_inside_def cb_index_def nth_update_dirty)

lemma writeString_total: "\<exists>s'. writeString x y sty chs s = Some s'"
  by (simp add: writeString_def setCursorPos_def split: prod.splits)

lemma writeString_last:
  assumes "chs \<noteq> []" "writeString x y sty chs s = Some s'"
  shows "\<exists>p. last (calls s') = WriteConsole p \<and> last p = last chs"
  using assms
  by (auto simp: writeString_def setCursorPos_def emit_def split: if_splits prod.splits)

lemma encode_space: "utf16_Encode [32] = [0x20]"
  by (simp add: utf16_Encode_def encode_rune_def)

lemma draw_cell_overflow:
  assumes "Dirty (cells s) x y" "GetContent (cells s) x y = (m, c, st, wd)" "x + wd > scr_w s"
  shows "\<exists>s1 r1. draw_cell y x s r = Some (s1, r1, x + 1)
           \<and> wcs r1 = (if (if st = StyleDefault then style s else st) \<noteq> lstyle r then []
                        else wcs r) @ [0x20]
           \<and> cells s1 = SetDirty (cells s) x y False
           \<and> scr_w s1 = scr_w s"
proof -
  obtain s0 where w: "writeString (lx r) (ly r) (lstyle r) (wcs r) s = Some s0"
    using writeString_total by blast
  from writeString_frame [OF w] have f: "cells s0 = cells s" "scr_w s0 = scr_w s" by simp_all
  have ov: "x > scr_w s - wd" using assms(3) by simp
  show ?thesis
    using assms(1,2) ov w f
    by (simp add: draw_cell_def Let_def encode_space)
qed

lemma Dirty_inside: "Dirty cb x y \<Longrightarrow> cb_inside cb x y"
  by (simp add: Dirty_def split: if_splits)

lemma draw_content: "draw s = Some s' \<Longrightarrow> content (cells s') = content (cells s)"
proof -
  assume "draw s = Some s'"
  then have "still s' = still s" by (rule draw_still)
  then have "cells (still s') = cells (still s)" by simp
  then show ?thesis by (simp add: still_def)
qed

lemma draw_cols_done: "\<not> x < scr_w s \<Longrightarrow> draw_cols y x s r = Some (s, r)"
  by (simp add: draw_cols.simps [of y x s r])

lemma draw_cols_step:
  "x < scr_w s \<Longrightarrow> draw_cell y x s r = Some (s1, r1, x1) \<Longrightarrow>
     draw_cols y x s r = draw_cols y x1 s1 r1"
  by (simp add: draw_cols.simps [of y x s r])

text \<open>
  C7. When the inner loop of \<open>draw\<close> is at a dirty cell of column \<open>x\<close> whose width
  \<open>wd\<close> has \<open>x + wd > w\<close>, the iteration appends the single code unit 0x20 (a space,
  no combining marks) to the run (after flushing the run when the style changes), goes on
  at column \<open>x + 1\<close>, and changes the cell buffer by \<open>SetDirty x y false\<close> only: the
  stored rune, combining runes, style and width read as before, and in a well-formed
  buffer the cell is no longer dirty. When that cell is in the last column, the loop ends
  there and the flush at the end of the row writes the run, whose last code unit is the
  space. A whole \<open>draw\<close> changes nothing of the cell buffer but dirty bits.
\<close>

theorem C7_wide_glyph_at_right_edge:
  "(Dirty (cells s) x y \<and> GetContent (cells s) x y = (m, c, st, wd) \<and> x + wd > scr_w s \<longrightarrow>
      (\<exists>s1 r1. draw_cell y x s r = Some (s1, r1, x + 1)
          \<and> wcs r1 = (if (if st = StyleDefault then style s else st) \<noteq> lstyle r then []
                       else wcs r) @ [0x20]
          \<and> cells s1 = SetDirty (cells s) x y False
          \<and> GetContent (cells s1) x y = (m, c, st, wd)
          \<and> (cb_wf (cells s) \<longrightarrow> \<not> Dirty (cells s1) x y)
          \<and> (x + 1 = scr_w s \<longrightarrow>
                (\<exists>s2 p. draw_cols y x s r = Some (s1, r1)
                   \<and> writeString (lx r1) (ly r1) (lstyle r1) (wcs r1) s1 = Some s2
                   \<and> last (calls s2) = WriteConsole p \<and> last p = 0x20))))
   \<and> (\<forall>s'. draw s = Some s' \<longrightarrow> content (cells s') = content (cells s))"
proof (intro conjI impI allI)
  fix s' assume "draw s = Some s'"
  then show "content (cells s') = content (cells s)" by (rule draw_content)
next
  assume a: "Dirty (cells s) x y \<and> GetContent (cells s) x y = (m, c, st, wd) \<and> x + wd > scr_w s"
  then obtain s1 r1 where d: "draw_cell y x s r = Some (s1, r1, x + 1)"
    and w: "wcs r1 = (if (if st = StyleDefault then style s else st) \<noteq> lstyle r then []
                       else wcs r) @ [0x20]"
    and c: "cells s1 = SetDirty (cells s) x y False"
    and sw: "scr_w s1 = scr_w s"
    using draw_cell_overflow [of s x y m c st wd r] by blast
  have g: "GetContent (cells s1) x y = (m, c, st, wd)" using a c by simp
  have nd: "cb_wf (cells s) \<longrightarrow> \<not> Dirty (cells s1) x y"
    using a c Dirty_SetDirty_same [of "cells s" x y False] Dirty_inside [of "cells s" x y]
    by simp
  have e: "\<exists>s2 p. draw_cols y x s r = Some (s1, r1)
                   \<and> writeString (lx r1) (ly r1) (lstyle r1) (wcs r1) s1 = Some s2
                   \<and> last (calls s2) = WriteConsole p \<and> last p = 0x20"
    if "x + 1 = scr_w s"
  proof -
    have x: "x < scr_w s" using that by simp
    have "draw_cols y (x + 1) s1 r1 = Some (s1, r1)"
      using that sw by (intro draw_cols_done) simp
    with draw_cols_step [OF x d] have dc: "draw_cols y x s r = Some (s1, r1)"
      by simp
    obtain s2 where ws: "writeString (lx r1) (ly r1) (lstyle r1) (wcs r1) s1 = Some s2"
      using writeString_total by blast
    have "wcs r1 \<noteq> []" "last (wcs r1) = 0x20" using w by simp_all
    with writeString_last [OF _ ws] obtain p where
      "last (calls s2) = WriteConsole p" "last p = 0x20" by auto
    with dc ws show ?thesis by blast
  qed
  show "\<exists>s1 r1. draw_cell y x s r = Some (s1, r1, x + 1)
          \<and> wcs r1 = (if (if st = StyleDefault then style s else st) \<noteq> lstyle r then []
                       else wcs r) @ [0x20]
          \<and> cells s1 = SetDirty (cells s) x y False
          \<and> GetContent (cells s1) x y = (m, c, st, wd)
          \<and> (cb_wf (cells s) \<longrightarrow> \<not> Dirty (cells s1) x y)
          \<and> (x + 1 = scr_w s \<longrightarrow>
                (\<exists>s2 p. draw_cols y x s r = Some (s1, r1)
                   \<and> writeString (lx r1) (ly r1) (lstyle r1) (wcs r1) s1 = Some s2
                   \<and> last (calls s2) = WriteConsole p \<and> last p = 0x20))"
    using d w c g nd e by blast
qed

lemmas edge_defs = edge_screen_def edge_host_def edge_run_def blank_cell_def wide_cell_def
  legacy_host_def NewConsoleScreen_def

lemmas draw_eval =
  Let_def emit_def getConsoleInfo_def resize_def Resize_def try_post_def
  setBufferSize_def mapStyle_def hideCursor_def
  setCursorInfo_def Invalidate_def draw_def draw_rows.simps draw_cols.simps draw_cell_def
  GetContent_def Dirty_def SetDirty_def cb_inside_def cb_index_def writeString_def
  setCursorPos_def doCursor_def StyleDefault_def styleInvalid_def zero_cell_def
  zero_coord_def zero_consoleInfo_def utf16_Encode_def encode_rune_def AttrInvalid_def
  passed_coord_uintptr
  Show_def Sync_def showCursor_def mapColor2RGB_def

lemma edge_draw:
  "map_option calls (draw edge_screen) =
     Some [SetConsoleCursorPosition \<lparr> co_x = 3, co_y = 0 \<rparr>, SetConsoleTextAttribute 7,
           WriteConsole [0x20]]"
  by (simp add: edge_defs draw_eval)

lemma edge_Sync:
  "map_option calls (Sync edge_screen) =
     Some [SetConsoleCursorInfo \<lparr> cu_size = 1, cu_visible = 0 \<rparr>,
           SetConsoleCursorPosition \<lparr> co_x = 0, co_y = 0 \<rparr>, SetConsoleTextAttribute 7,
           WriteConsole [0x20, 0x20, 0x20, 0x20],
           SetConsoleCursorInfo \<lparr> cu_size = 1, cu_visible = 0 \<rparr>]"
  by (simp add: edge_defs draw_eval)

lemma edge_facts:
  "Dirty (cells edge_screen) 3 0"
  "GetContent (cells edge_screen) 3 0 = (0x4e2d, [], StyleDefault, 2)"
  "scr_w edge_screen = 4" "cb_wf (cells edge_screen)" "\<not> fini edge_screen"
  "lstyle edge_run = StyleDefault" "style edge_screen = StyleDefault" "wcs edge_run = []"
  by (simp_all add: edge_defs Dirty_def GetContent_def cb_inside_def cb_index_def cb_wf_def)

theorem C7_wide_glyph_at_right_edge_witness:
  "Dirty (cells edge_screen) 3 0
   \<and> GetContent (cells edge_screen) 3 0 = (0x4e2d, [], StyleDefault, 2)
   \<and> 3 + 2 > scr_w edge_screen
   \<and> (\<exists>s1 r1 s2 p. draw_cell 0 3 edge_screen edge_run = Some (s1, r1, 4)
         \<and> wcs r1 = [0x20]
         \<and> GetContent (cells s1) 3 0 = (0x4e2d, [], StyleDefault, 2)
         \<and> \<not> Dirty (cells s1) 3 0
         \<and> draw_cols 0 3 edge_screen edge_run = Some (s1, r1)
         \<and> writeString (lx r1) (ly r1) (lstyle r1) (wcs r1) s1 = Some s2
         \<and> last (calls s2) = WriteConsole p \<and> last p = 0x20)
   \<and> map_option calls (draw edge_screen) =
       Some [SetConsoleCursorPosition \<lparr> co_x = 3, co_y = 0 \<rparr>, SetConsoleTextAttribute 7,
             WriteConsole [0x20]]"
proof -
  from C7_wide_glyph_at_right_edge [of edge_screen 3 0 "0x4e2d" "[]" StyleDefault 2 edge_run]
  obtain s1 r1 where 1: "draw_cell 0 3 edge_screen edge_run = Some (s1, r1, 3 + 1)"
    and 2: "wcs r1 = [0x20]" and 3: "GetContent (cells s1) 3 0 = (0x4e2d, [], StyleDefault, 2)"
    and 4: "\<not> Dirty (cells s1) 3 0"
    and 5: "\<exists>s2 p. draw_cols 0 3 edge_screen edge_run = Some (s1, r1)
                   \<and> writeString (lx r1) (ly r1) (lstyle r1) (wcs r1) s1 = Some s2
                   \<and> last (calls s2) = WriteConsole p \<and> last p = 0x20"
    by (auto simp: edge_facts)
  from 1 2 3 4 5 show ?thesis
    using edge_facts edge_draw by auto
qed

lemma content_Invalidate [simp]: "content (Invalidate cb) = content cb"
  by (simp add: content_def Invalidate_def comp_def)

lemma Invalidate_content: "Invalidate (content cb) = Invalidate cb"
  by (simp add: content_def Invalidate_def comp_def)

lemma Invalidate_cong: "content cb = content cb' \<Longrightarrow> Invalidate cb = Invalidate cb'"
  by (metis Invalidate_content)

lemma Sync_Show: "\<not> fini s \<Longrightarrow> Sync s = Show (s \<lparr> cells := Invalidate (cells s) \<rparr>)"
  by (simp add: Sync_def Show_def)

lemma Dirty_Invalidate:
  "cb_wf cb \<Longrightarrow> cb_inside cb x y \<Longrightarrow> Dirty (Invalidate cb) x y"
  using cb_index_in_range [of cb x y]
  by (simp add: Dirty_def Invalidate_def cb_inside_def cb_index_def)

lemma payloads_simps [simp]:
  "payloads [] = []" "payloads (cs @ cs') = payloads cs @ payloads cs'"
  "payloads (c # cs) = (case c of WriteConsole p \<Rightarrow> [p] | _ \<Rightarrow> []) @ payloads cs"
  by (simp_all add: payloads_def)

lemma written_Nil [simp]: "written [] []"
  by (simp add: written_def)

lemma written_append: "written ps rs \<Longrightarrow> written ps' rs' \<Longrightarrow> written (ps @ ps') (rs @ rs')"
  by (simp add: written_def list_all2_appendI)

lemma mapColor2RGB_calls: "mapColor2RGB c s = (v, s') \<Longrightarrow> calls s' = calls s"
  by (auto simp: mapColor2RGB_def Let_def split: option.splits)

lemma mapStyle_calls:
  assumes "mapStyle sty s = (a, s')" shows "calls s' = calls s"
proof -
  obtain fa s1 where 1: "(if fg sty \<noteq> ColorDefault \<and> fg sty \<noteq> ColorReset then mapColor2RGB (fg sty) s
       else (ci_attrs (oscreen s) AND 0xf, s)) = (fa, s1)" by (metis surj_pair)
  obtain ba s2 where 2: "(if bg sty \<noteq> ColorDefault \<and> bg sty \<noteq> ColorReset then mapColor2RGB (bg sty) s1
       else (drop_bit 4 (ci_attrs (oscreen s)) AND 0xf, s1)) = (ba, s2)" by (metis surj_pair)
  from 1 have q1: "calls s1 = calls s" by (auto split: if_splits dest: mapColor2RGB_calls)
  from 2 have q2: "calls s2 = calls s1" by (auto split: if_splits dest: mapColor2RGB_calls)
  from assms 1 2 have "s' = s2" by (simp add: mapStyle_def Let_def)
  with q1 q2 show ?thesis by simp
qed

lemma writeString_calls:
  assumes "writeString x y sty chs s = Some s'"
  shows "\<exists>cs runs. calls s' = calls s @ cs \<and> written (payloads cs) runs \<and> concat runs = chs"
proof (cases "chs = []")
  case True
  with assms have "s' = s" by (simp add: writeString_def)
  with True show ?thesis by (intro exI [of _ "[]"]) simp
next
  case False
  show ?thesis
  proof (cases "vten s")
    case True
    with False assms show ?thesis
      by (intro exI [of _ "[WriteConsole (utf16_Encode (vtCursorPos (y + 1) (x + 1))
               @ utf16_Encode (makeVtStyle (hst s) sty) @ chs)]"] exI [of _ "[chs]"])
         (auto simp: writeString_def emit_def written_def suffix_def)
  next
    case vt: False
    let ?c = "passed_coord (coord_uintptr \<lparr> co_x = word_of_int x, co_y = word_of_int y \<rparr>)"
    let ?s0 = "emit (SetConsoleCursorPosition ?c) s"
    obtain a s1 where m: "mapStyle sty ?s0 = (a, s1)" by (metis surj_pair)
    from mapStyle_calls [OF m] have c1: "calls s1 = calls s @ [SetConsoleCursorPosition ?c]"
      by (simp add: emit_def)
    from assms False vt m
    have "s' = emit (WriteConsole chs) (emit (SetConsoleTextAttribute a) s1)"
      by (simp add: writeString_def setCursorPos_def)
    with c1 have "calls s' = calls s @ [SetConsoleCursorPosition ?c] @ [SetConsoleTextAttribute a]
           @ [WriteConsole chs]"
      by (simp add: emit_def)
    moreover have "written (payloads ([SetConsoleCursorPosition ?c] @ [SetConsoleTextAttribute a]
           @ [WriteConsole chs])) [chs]"
      using False by (simp add: written_def)
    ultimately show ?thesis
      by (intro exI [of _ "[SetConsoleCursorPosition ?c] @ [SetConsoleTextAttribute a]
           @ [WriteConsole chs]"] exI [of _ "[chs]"]) simp
  qed
qed

lemma utf16_Encode_Nil [simp]: "utf16_Encode [] = []"
  by (simp add: utf16_Encode_def)

lemma draw_cell_dirty_eq:
  assumes "Dirty (cells s) x y"
    and "writeString (lx r) (ly r) (lstyle r) (wcs r) s = Some s0"
  shows "\<exists>s1 r1.
     draw_cell y x s r = Some (s1, r1, x + snd (glyph (GetContent (cells s)) (scr_w s) x y))
     \<and> s1 = (if (if fst (snd (snd (GetContent (cells s) x y))) = StyleDefault then style s
                  else fst (snd (snd (GetContent (cells s) x y)))) \<noteq> lstyle r then s0 else s)
            \<lparr> cells := fold (\<lambda>dx cb. SetDirty cb (x + int dx) y False)
                      [0..<nat (snd (glyph (GetContent (cells s)) (scr_w s) x y))] (cells s) \<rparr>
     \<and> wcs r1 = (if (if fst (snd (snd (GetContent (cells s) x y))) = StyleDefault then style s
                  else fst (snd (snd (GetContent (cells s) x y)))) \<noteq> lstyle r then []
                  else wcs r) @ fst (glyph (GetContent (cells s)) (scr_w s) x y)"
proof -
  obtain m c st wd where g: "GetContent (cells s) x y = (m, c, st, wd)" by (metis prod_cases4)
  from writeString_frame [OF assms(2)]
  have f: "cells s0 = cells s" "scr_w s0 = scr_w s" by simp_all
  show ?thesis
    using assms g f by (simp add: draw_cell_def glyph_def Let_def)
qed

lemma draw_cell_dirty:
  assumes "Dirty (cells s) x y"
  shows "\<exists>s1 r1 cs runs.
     draw_cell y x s r = Some (s1, r1, x + snd (glyph (GetContent (cells s)) (scr_w s) x y))
     \<and> calls s1 = calls s @ cs \<and> written (payloads cs) runs
     \<and> concat runs @ wcs r1 = wcs r @ fst (glyph (GetContent (cells s)) (scr_w s) x y)
     \<and> cells s1 = fold (\<lambda>dx cb. SetDirty cb (x + int dx) y False)
                      [0..<nat (snd (glyph (GetContent (cells s)) (scr_w s) x y))] (cells s)
     \<and> scr_w s1 = scr_w s \<and> scr_h s1 = scr_h s"
proof -
  let ?flush = "(if fst (snd (snd (GetContent (cells s) x y))) = StyleDefault then style s
                  else fst (snd (snd (GetContent (cells s) x y)))) \<noteq> lstyle r"
  obtain s0 where w: "writeString (lx r) (ly r) (lstyle r) (wcs r) s = Some s0"
    using writeString_total by blast
  from writeString_frame [OF w]
  have f: "scr_w s0 = scr_w s" "scr_h s0 = scr_h s" by simp_all
  from writeString_calls [OF w] obtain cs runs where
    c: "calls s0 = calls s @ cs" "written (payloads cs) runs" "concat runs = wcs r" by blast
  from draw_cell_dirty_eq [OF assms w, of ] obtain s1 r1 where
    d: "draw_cell y x s r = Some (s1, r1, x + snd (glyph (GetContent (cells s)) (scr_w s) x y))"
    and s1: "s1 = (if ?flush then s0 else s)
            \<lparr> cells := fold (\<lambda>dx cb. SetDirty cb (x + int dx) y False)
                      [0..<nat (snd (glyph (GetContent (cells s)) (scr_w s) x y))] (cells s) \<rparr>"
    and r1: "wcs r1 = (if ?flush then [] else wcs r) @ fst (glyph (GetContent (cells s)) (scr_w s) x y)"
    by blast
  show ?thesis
  proof (cases ?flush)
    case True
    have "calls s1 = calls s @ cs" using s1 True c(1) by simp
    moreover have "concat runs @ wcs r1 = wcs r @ fst (glyph (GetContent (cells s)) (scr_w s) x y)"
      using r1 True c(3) by simp
    moreover have "cells s1 = fold (\<lambda>dx cb. SetDirty cb (x + int dx) y False)
                      [0..<nat (snd (glyph (GetContent (cells s)) (scr_w s) x y))] (cells s)"
      "scr_w s1 = scr_w s" "scr_h s1 = scr_h s"
      using s1 f by simp_all
    ultimately show ?thesis using d c(2) by blast
  next
    case False
    have "calls s1 = calls s @ []" using s1 False by simp
    moreover have "concat [] @ wcs r1 = wcs r @ fst (glyph (GetContent (cells s)) (scr_w s) x y)"
      using r1 False by simp
    moreover have "cells s1 = fold (\<lambda>dx cb. SetDirty cb (x + int dx) y False)
                      [0..<nat (snd (glyph (GetContent (cells s)) (scr_w s) x y))] (cells s)"
      "scr_w s1 = scr_w s" "scr_h s1 = scr_h s"
      using s1 False by simp_all
    moreover have "written (payloads []) []" by simp
    ultimately show ?thesis using d by blast
  qed
qed

lemma cb_index_inj:
  assumes "cb_inside cb a b" "cb_inside cb x y" "cb_index cb a b = cb_index cb x y"
  shows "a = x \<and> b = y"
proof -
  let ?w = "cb_w cb"
  from assms(1,2) have r: "0 \<le> a" "a < ?w" "0 \<le> b" "0 \<le> x" "x < ?w" "0 \<le> y"
    by (simp_all add: cb_inside_def)
  then have "0 \<le> b * ?w + a" "0 \<le> y * ?w + x" by simp_all
  with assms(3) have e: "b * ?w + a = y * ?w + x" by (simp add: cb_index_def)
  have "(b * ?w + a) div ?w = b" "(y * ?w + x) div ?w = y" using r by simp_all
  with e have "b = y" by simp
  with e show ?thesis by simp
qed

lemma cb_index_cells_upd [simp]: "cb_index (cb\<lparr>cb_cells := c\<rparr>) x y = cb_index cb x y"
  by (simp add: cb_index_def)

lemma Dirty_SetDirty_other:
  assumes "a \<noteq> x \<or> b \<noteq> y"
  shows "Dirty (SetDirty cb a b v) x y = Dirty cb x y"
proof (cases "cb_inside cb a b \<and> cb_inside cb x y")
  case True
  with assms cb_index_inj [of cb a b x y] have "cb_index cb x y \<noteq> cb_index cb a b" by auto
  with True show ?thesis by (simp add: Dirty_def SetDirty_def nth_update_dirty cb_inside_def)
next
  case False
  then show ?thesis by (auto simp: Dirty_def SetDirty_def cb_inside_def cb_index_def)
qed

lemma GetContent_fold_SetDirty [simp]:
  "GetContent (fold (\<lambda>dx cb. SetDirty cb (f dx) y v) ns cb) = GetContent cb"
  by (induction ns arbitrary: cb) (simp_all add: fun_eq_iff)

lemma Dirty_fold_SetDirty_other:
  assumes "\<forall>n \<in> set ns. f n \<noteq> x' \<or> y \<noteq> y'"
  shows "Dirty (fold (\<lambda>dx cb. SetDirty cb (f dx) y v) ns cb) x' y' = Dirty cb x' y'"
  using assms by (induction ns arbitrary: cb) (simp_all add: Dirty_SetDirty_other)

lemma glyph_width_pos:
  "Dirty cb x y \<Longrightarrow> 1 \<le> snd (glyph (GetContent cb) w x y)"
  by (auto simp: glyph_def Dirty_def GetContent_def Let_def split: if_splits prod.splits)

lemma row_text_step:
  "x < w \<Longrightarrow> 1 \<le> snd (glyph g w x y) \<Longrightarrow>
     row_text g w y x = fst (glyph g w x y) @ row_text g w y (x + snd (glyph g w x y))"
  by (simp add: row_text.simps [of g w y x] max_def)

lemma row_text_done: "\<not> x < w \<Longrightarrow> row_text g w y x = []"
  by (simp add: row_text.simps [of g w y x])

lemma draw_cols_writes:
  "\<forall>x'. x \<le> x' \<and> x' < scr_w s \<longrightarrow> Dirty (cells s) x' y \<Longrightarrow>
   \<exists>s' r' cs runs. draw_cols y x s r = Some (s', r')
     \<and> calls s' = calls s @ cs \<and> written (payloads cs) runs
     \<and> concat runs @ wcs r' = wcs r @ row_text (GetContent (cells s)) (scr_w s) y x
     \<and> GetContent (cells s') = GetContent (cells s)
     \<and> (\<forall>x' y'. y' \<noteq> y \<longrightarrow> Dirty (cells s') x' y' = Dirty (cells s) x' y')
     \<and> scr_w s' = scr_w s \<and> scr_h s' = scr_h s"
proof (induction y x s r rule: draw_cols.induct)
  case (1 y x s r)
  show ?case
  proof (cases "x < scr_w s")
    case False
    have "written (payloads []) []" by simp
    with False show ?thesis
      by (intro exI [of _ s] exI [of _ r] exI [of _ "[]"])
         (simp add: draw_cols_done row_text_done)
  next
    case True
    let ?G = "GetContent (cells s)"
    let ?t = "fst (glyph ?G (scr_w s) x y)" and ?wd = "snd (glyph ?G (scr_w s) x y)"
    from 1(2) True have dx: "Dirty (cells s) x y" by simp
    from glyph_width_pos [OF dx] have wd: "1 \<le> ?wd" .
    from draw_cell_dirty [OF dx, of r] obtain s1 r1 cs1 runs1 where
      d: "draw_cell y x s r = Some (s1, r1, x + ?wd)"
      and c1: "calls s1 = calls s @ cs1" "written (payloads cs1) runs1"
      and t1: "concat runs1 @ wcs r1 = wcs r @ ?t"
      and cl: "cells s1 = fold (\<lambda>dx cb. SetDirty cb (x + int dx) y False) [0..<nat ?wd] (cells s)"
      and sz: "scr_w s1 = scr_w s" "scr_h s1 = scr_h s"
      by blast
    have g1: "GetContent (cells s1) = ?G" using cl by simp
    have oth: "Dirty (cells s1) x' y' = Dirty (cells s) x' y'" if "y' \<noteq> y" for x' y'
      using cl that by (simp add: Dirty_fold_SetDirty_other)
    have rest: "\<forall>x'. x + ?wd \<le> x' \<and> x' < scr_w s1 \<longrightarrow> Dirty (cells s1) x' y"
    proof (intro allI impI)
      fix x' assume a: "x + ?wd \<le> x' \<and> x' < scr_w s1"
      have "\<forall>n \<in> set [0..<nat ?wd]. x + int n \<noteq> x' \<or> y \<noteq> y" using a by auto
      from Dirty_fold_SetDirty_other [where cb = "cells s" and v = False, OF this] cl
      have "Dirty (cells s1) x' y = Dirty (cells s) x' y" by simp
      with 1(2) a wd sz show "Dirty (cells s1) x' y" by simp
    qed
    from 1(1) [OF True d refl refl rest] obtain s' r' cs runs where
      r: "draw_cols y (x + ?wd) s1 r1 = Some (s', r')"
      and c: "calls s' = calls s1 @ cs" "written (payloads cs) runs"
      and t: "concat runs @ wcs r' = wcs r1 @ row_text (GetContent (cells s1)) (scr_w s1) y (x + ?wd)"
      and g: "GetContent (cells s') = GetContent (cells s1)"
      and o: "\<forall>x' y'. y' \<noteq> y \<longrightarrow> Dirty (cells s') x' y' = Dirty (cells s1) x' y'"
      and z: "scr_w s' = scr_w s1" "scr_h s' = scr_h s1"
      by blast
    have 2: "draw_cols y x s r = Some (s', r')" using draw_cols_step [OF True d] r by simp
    have 3: "calls s' = calls s @ (cs1 @ cs)" using c(1) c1(1) by simp
    have 4: "written (payloads (cs1 @ cs)) (runs1 @ runs)"
      using written_append [OF c1(2) c(2)] by simp
    have "concat (runs1 @ runs) @ wcs r' = concat runs1 @ wcs r1 @ row_text ?G (scr_w s) y (x + ?wd)"
      using t g1 sz by simp
    also have "\<dots> = wcs r @ ?t @ row_text ?G (scr_w s) y (x + ?wd)"
      using t1 by (metis append.assoc)
    also have "\<dots> = wcs r @ row_text ?G (scr_w s) y x"
      using row_text_step [OF True wd] by simp
    finally have 5: "concat (runs1 @ runs) @ wcs r' = wcs r @ row_text ?G (scr_w s) y x" .
    have 6: "GetContent (cells s') = ?G" using g g1 by simp
    have 7: "\<forall>x' y'. y' \<noteq> y \<longrightarrow> Dirty (cells s') x' y' = Dirty (cells s) x' y'"
      using o oth by simp
    from 2 3 4 5 6 7 z sz show ?thesis by (metis (no_types, lifting))
  qed
qed

lemma screen_text_step:
  "y < h \<Longrightarrow> screen_text g w h y = row_text g w y 0 @ screen_text g w h (y + 1)"
  by (simp add: screen_text.simps [of g w h y])

lemma screen_text_done: "\<not> y < h \<Longrightarrow> screen_text g w h y = []"
  by (simp add: screen_text.simps [of g w h y])

lemma draw_rows_writes:
  "wcs r = [] \<Longrightarrow>
   \<forall>x' y'. 0 \<le> x' \<and> x' < scr_w s \<and> y \<le> y' \<and> y' < scr_h s \<longrightarrow> Dirty (cells s) x' y' \<Longrightarrow>
   \<exists>s' cs runs. draw_rows y s r = Some s'
     \<and> calls s' = calls s @ cs \<and> written (payloads cs) runs
     \<and> concat runs = screen_text (GetContent (cells s)) (scr_w s) (scr_h s) y
     \<and> GetContent (cells s') = GetContent (cells s)
     \<and> scr_w s' = scr_w s \<and> scr_h s' = scr_h s"
proof (induction y s r rule: draw_rows.induct)
  case (1 y s r)
  show ?case
  proof (cases "y < scr_h s")
    case False
    have "written (payloads []) []" by simp
    with False show ?thesis
      by (intro exI [of _ s] exI [of _ "[]"])
         (simp add: draw_rows.simps [of y s r] screen_text_done)
  next
    case True
    let ?G = "GetContent (cells s)"
    from 1(3) True have "\<forall>x'. 0 \<le> x' \<and> x' < scr_w s \<longrightarrow> Dirty (cells s) x' y" by simp
    from draw_cols_writes [OF this, of r] 1(2) obtain s1 r1 cs1 runs1 where
      dc: "draw_cols y 0 s r = Some (s1, r1)"
      and c1: "calls s1 = calls s @ cs1" "written (payloads cs1) runs1"
      and t1: "concat runs1 @ wcs r1 = row_text ?G (scr_w s) y 0"
      and g1: "GetContent (cells s1) = ?G"
      and o1: "\<forall>x' y'. y' \<noteq> y \<longrightarrow> Dirty (cells s1) x' y' = Dirty (cells s) x' y'"
      and z1: "scr_w s1 = scr_w s" "scr_h s1 = scr_h s"
      by auto
    from writeString_total obtain s2 where
      ws: "writeString (lx r1) (ly r1) (lstyle r1) (wcs r1) s1 = Some s2" by blast
    from writeString_calls [OF ws] obtain cs2 runs2 where
      c2: "calls s2 = calls s1 @ cs2" "written (payloads cs2) runs2" "concat runs2 = wcs r1"
      by blast
    from writeString_frame [OF ws] have
      f2: "cells s2 = cells s1" "scr_w s2 = scr_w s1" "scr_h s2 = scr_h s1" by simp_all
    let ?r = "r1 \<lparr> wcs := [], lstyle := styleInvalid \<rparr>"
    have e: "wcs ?r = []" by simp
    have rest: "\<forall>x' y'. 0 \<le> x' \<and> x' < scr_w s2 \<and> y + 1 \<le> y' \<and> y' < scr_h s2
                  \<longrightarrow> Dirty (cells s2) x' y'"
      using 1(3) o1 f2 z1 by simp
    from 1(1) [OF True dc refl ws e rest] obtain s' cs runs where
      r: "draw_rows (y + 1) s2 ?r = Some s'"
      and c: "calls s' = calls s2 @ cs" "written (payloads cs) runs"
      and t: "concat runs = screen_text (GetContent (cells s2)) (scr_w s2) (scr_h s2) (y + 1)"
      and k: "GetContent (cells s') = GetContent (cells s2)"
             "scr_w s' = scr_w s2" "scr_h s' = scr_h s2"
      by blast
    have 2: "draw_rows y s r = Some s'"
      using True dc ws r by (simp add: draw_rows.simps [of y s r])
    have 3: "calls s' = calls s @ (cs1 @ cs2 @ cs)" using c(1) c2(1) c1(1) by simp
    have 4: "written (payloads (cs1 @ cs2 @ cs)) (runs1 @ runs2 @ runs)"
      using written_append [OF c1(2) written_append [OF c2(2) c(2)]] by simp
    have "concat (runs1 @ runs2 @ runs) = (concat runs1 @ wcs r1) @ concat runs"
      using c2(3) by simp
    also have "\<dots> = row_text ?G (scr_w s) y 0 @ screen_text ?G (scr_w s) (scr_h s) (y + 1)"
      using t1 t f2 g1 z1 by simp
    also have "\<dots> = screen_text ?G (scr_w s) (scr_h s) y"
      using screen_text_step [OF True] by simp
    finally have 5: "concat (runs1 @ runs2 @ runs) = screen_text ?G (scr_w s) (scr_h s) y" .
    have 6: "GetContent (cells s') = ?G" "scr_w s' = scr_w s" "scr_h s' = scr_h s"
      using k f2 g1 z1 by simp_all
    from 2 3 4 5 6 show ?thesis by blast
  qed
qed

lemma draw_writes:
  assumes "0 \<le> scr_w s" "all_dirty s"
  shows "\<exists>s' cs runs. draw s = Some s'
     \<and> calls s' = calls s @ cs \<and> written (payloads cs) runs
     \<and> concat runs = screen_text (GetContent (cells s)) (scr_w s) (scr_h s) 0
     \<and> GetContent (cells s') = GetContent (cells s)
     \<and> scr_w s' = scr_w s \<and> scr_h s' = scr_h s"
proof -
  let ?r = "\<lparr> wcs = [], lstyle = styleInvalid, lx = - 1, ly = - 1 \<rparr>"
  have e: "wcs ?r = []" by simp
  have "\<forall>x' y'. 0 \<le> x' \<and> x' < scr_w s \<and> 0 \<le> y' \<and> y' < scr_h s \<longrightarrow> Dirty (cells s) x' y'"
    using assms(2) by (simp add: all_dirty_def)
  from draw_rows_writes [OF e this] assms(1) show ?thesis by (simp add: draw_def)
qed

lemma Resize_dirty:
  assumes "0 \<le> x" "x < nw" "0 \<le> y" "y < nh"
  shows "Dirty (Resize cb nw nh) x y"
proof -
  let ?R = "Resize cb nw nh"
  have wf: "cb_wf ?R" by (simp add: cb_wf_def Resize_def length_concat comp_def sum_list_triv)
  have ins: "cb_inside ?R x y" using assms by (simp add: cb_inside_def Resize_def)
  from cb_index_in_range [OF wf ins] have "cb_cells ?R ! cb_index ?R x y \<in> set (cb_cells ?R)"
    by (rule nth_mem)
  moreover have "\<forall>c \<in> set (cb_cells ?R). c_dirty c" by (auto simp: Resize_def)
  ultimately show ?thesis using ins by (simp add: Dirty_def)
qed

lemma resize_all_dirty:
  assumes "fits s" "\<forall>x y. cb_inside (cells s) x y \<longrightarrow> Dirty (cells s) x y"
  shows "all_dirty (resize s)"
proof -
  let ?info = "getConsoleInfo s zero_consoleInfo"
  let ?nw = "sint ((r_right (ci_win ?info) - r_left (ci_win ?info)) + 1)"
  let ?nh = "sint ((r_bottom (ci_win ?info) - r_top (ci_win ?info)) + 1)"
  show ?thesis
  proof (cases "scr_w s = ?nw \<and> scr_h s = ?nh")
    case True
    then have "resize s = s" by (simp add: resize_def Let_def)
    with assms show ?thesis by (simp add: all_dirty_def fits_def cb_inside_def)
  next
    case False
    then have "cells (resize s) = Resize (cells s) ?nw ?nh"
      "scr_w (resize s) = ?nw" "scr_h (resize s) = ?nh"
      by (auto simp add: resize_def Let_def setBufferSize_def emit_def try_post_def
            split: option.splits)
    then show ?thesis by (simp add: all_dirty_def Resize_dirty)
  qed
qed

lemma emitVtString_calls: "emitVtString vs s = Some s' \<Longrightarrow> \<exists>cs. calls s' = calls s @ cs"
  by (auto simp: emitVtString_def emit_def Let_def split: if_splits)

lemma hideCursor_calls: "hideCursor s = Some s' \<Longrightarrow> \<exists>cs. calls s' = calls s @ cs"
  by (auto simp: hideCursor_def setCursorInfo_def emit_def dest: emitVtString_calls
      split: if_splits)

lemma setCursorPos_calls:
  "setCursorPos x y v s = Some s' \<Longrightarrow> \<exists>cs. calls s' = calls s @ cs"
  by (auto simp: setCursorPos_def emit_def dest: emitVtString_calls split: if_splits)

lemma showCursor_calls:
  assumes "showCursor s = Some s'"
  shows "\<exists>cs. calls s' = calls s @ cs"
proof (cases "vten s")
  case False
  with assms show ?thesis by (auto simp: showCursor_def setCursorInfo_def emit_def)
next
  case True
  with assms obtain s1 s2 where
    1: "emitVtString vtShowCursor s = Some s1"
    and 2: "emitVtString (vtCursorStyles_at (cursorStyle s1)) s1 = Some s2"
    and 3: "(if cursorColor s2 = ColorReset then emitVtString vtCursorColorReset s2
             else if Valid (cursorColor s2) then
               (case color_RGB (hst s2) (cursorColor s2) of
                  (r, g, b) \<Rightarrow> emitVtString (vtCursorColorRGB r g b) s2)
             else Some s2) = Some s'"
    by (auto simp: showCursor_def bind_eq_Some_conv)
  from 3 have "\<exists>cs. calls s' = calls s2 @ cs"
    by (auto dest: emitVtString_calls split: if_splits prod.splits)
  with emitVtString_calls [OF 1] emitVtString_calls [OF 2] show ?thesis by auto
qed

lemma doCursor_calls:
  assumes "doCursor s = Some s'"
  shows "\<exists>cs. calls s' = calls s @ cs"
proof (cases "curx s < 0 \<or> cury s < 0 \<or> curx s \<ge> scr_w s \<or> cury s \<ge> scr_h s")
  case True
  with assms have "hideCursor s = Some s'" by (simp add: doCursor_def Let_def)
  then show ?thesis by (rule hideCursor_calls)
next
  case False
  with assms obtain s1 where 1: "setCursorPos (curx s) (cury s) (vten s) s = Some s1"
    and 2: "showCursor s1 = Some s'"
    by (auto simp: doCursor_def Let_def bind_eq_Some_conv)
  from setCursorPos_calls [OF 1] showCursor_calls [OF 2] show ?thesis by auto
qed

lemma Sync_writes:
  assumes "\<not> fini s" "fits s" "Sync s = Some s'"
  shows "\<exists>pre cs post runs. calls s' = calls s @ pre @ cs @ post
     \<and> written (payloads cs) runs
     \<and> concat runs = screen_text (GetContent (cells s')) (scr_w s') (scr_h s') 0"
proof -
  let ?s0 = "s \<lparr> cells := Invalidate (cells s) \<rparr>"
  from assms(1,3) obtain s1 s2 where
    h: "hideCursor ?s0 = Some s1" and d: "draw (resize s1) = Some s2"
    and c: "doCursor s2 = Some s'"
    by (auto simp: Sync_def bind_eq_Some_conv)
  from quiet_fields [OF hideCursor_quiet [OF h]] have
    f1: "cells s1 = Invalidate (cells s)" "scr_w s1 = scr_w s" "scr_h s1 = scr_h s"
    by simp_all
  have fit1: "fits s1"
    using assms(2) f1 by (simp add: fits_def cb_wf_def Invalidate_def)
  have "Dirty (cells s1) x y" if "cb_inside (cells s1) x y" for x y
  proof -
    from that f1 have "cb_inside (cells s) x y" by (simp add: cb_inside_def Invalidate_def)
    with assms(2) have "Dirty (Invalidate (cells s)) x y"
      by (intro Dirty_Invalidate) (simp_all add: fits_def)
    with f1 show ?thesis by simp
  qed
  then have "\<forall>x y. cb_inside (cells s1) x y \<longrightarrow> Dirty (cells s1) x y" by blast
  from resize_all_dirty [OF fit1 this] have ad: "all_dirty (resize s1)" .
  from d have nn: "0 \<le> scr_w (resize s1)" by (simp add: draw_def split: if_splits)
  from draw_writes [OF nn ad] d obtain cs runs where
    w: "calls s2 = calls (resize s1) @ cs" "written (payloads cs) runs"
       "concat runs = screen_text (GetContent (cells (resize s1))) (scr_w (resize s1))
                        (scr_h (resize s1)) 0"
    and k: "GetContent (cells s2) = GetContent (cells (resize s1))"
           "scr_w s2 = scr_w (resize s1)" "scr_h s2 = scr_h (resize s1)"
    by auto
  from quiet_fields [OF doCursor_quiet [OF c]] have
    f3: "cells s' = cells s2" "scr_w s' = scr_w s2" "scr_h s' = scr_h s2" by simp_all
  from hideCursor_calls [OF h] obtain p1 where p1: "calls s1 = calls s @ p1" by auto
  from calls_resize [of s1] obtain p2 where p2: "calls (resize s1) = calls s1 @ p2" by auto
  from doCursor_calls [OF c] obtain p3 where p3: "calls s' = calls s2 @ p3" by auto
  have 1: "calls s' = calls s @ (p1 @ p2) @ cs @ p3" using p1 p2 p3 w(1) by simp
  have 2: "concat runs = screen_text (GetContent (cells s')) (scr_w s') (scr_h s') 0"
    using w(3) k f3 by simp
  from 1 w(2) 2 show ?thesis by blast
qed

lemma edge_Sync_text:
  "map_option (\<lambda>t. screen_text (GetContent (cells t)) (scr_w t) (scr_h t) 0) (Sync edge_screen)
     = Some [0x20, 0x20, 0x20, 0x20]"
  by (simp add: edge_defs draw_eval screen_text.simps row_text.simps glyph_def)

lemma edge_fits: "fits edge_screen"
  by (simp add: fits_def cb_wf_def edge_defs)

text \<open>
  C3. When the screen is not finished, \<open>Sync\<close> is \<open>Show\<close> on the screen with its cell
  buffer invalidated: the same result, so the same hide-cursor, resize, draw and cursor
  sequence. In every case the two agree up to dirty bits. The result of \<open>Sync\<close> does
  not depend on the dirty bits before the call. When the cell buffer has the size of the
  viewport and \<open>Sync\<close> returns, its calls hold, after those that hide the cursor and
  resize and before those that restore the cursor, \<open>WriteConsole\<close> calls whose runs
  make up, in order, the text of every cell of the resulting screen: every cell is written
  again, whatever the dirty bits were.
\<close>

theorem C3_Sync_is_Invalidate_then_Show:
  "(\<not> fini s \<longrightarrow> Sync s = Show (s \<lparr> cells := Invalidate (cells s) \<rparr>))
   \<and> map_option (\<lambda>t. t \<lparr> cells := content (cells t) \<rparr>) (Sync s) =
       map_option (\<lambda>t. t \<lparr> cells := content (cells t) \<rparr>)
         (Show (s \<lparr> cells := Invalidate (cells s) \<rparr>))
   \<and> (\<forall>cb. \<not> fini s \<and> content cb = content (cells s) \<longrightarrow> Sync (s \<lparr> cells := cb \<rparr>) = Sync s)
   \<and> (\<forall>s'. \<not> fini s \<and> fits s \<and> Sync s = Some s' \<longrightarrow>
         (\<exists>pre cs post runs. calls s' = calls s @ pre @ cs @ post
            \<and> written (payloads cs) runs
            \<and> concat runs = screen_text (GetContent (cells s')) (scr_w s') (scr_h s') 0))"
proof (intro conjI allI impI)
  assume "\<not> fini s" then show "Sync s = Show (s \<lparr> cells := Invalidate (cells s) \<rparr>)"
    by (rule Sync_Show)
next
  show "map_option (\<lambda>t. t \<lparr> cells := content (cells t) \<rparr>) (Sync s) =
       map_option (\<lambda>t. t \<lparr> cells := content (cells t) \<rparr>)
         (Show (s \<lparr> cells := Invalidate (cells s) \<rparr>))"
  proof (cases "fini s")
    case False then show ?thesis by (simp add: Sync_Show)
  next
    case True then show ?thesis by (simp add: Sync_def Show_def)
  qed
next
  fix cb assume a: "\<not> fini s \<and> content cb = content (cells s)"
  then have "Invalidate cb = Invalidate (cells s)" by (intro Invalidate_cong) simp
  with a show "Sync (s \<lparr> cells := cb \<rparr>) = Sync s" by (simp add: Sync_def)
next
  fix s' assume "\<not> fini s \<and> fits s \<and> Sync s = Some s'"
  then show "\<exists>pre cs post runs. calls s' = calls s @ pre @ cs @ post
            \<and> written (payloads cs) runs
            \<and> concat runs = screen_text (GetContent (cells s')) (scr_w s') (scr_h s') 0"
    by (intro Sync_writes) simp_all
qed

theorem C3_Sync_is_Invalidate_then_Show_witness:
  "\<not> fini edge_screen \<and> fits edge_screen
   \<and> Sync edge_screen = Show (edge_screen \<lparr> cells := Invalidate (cells edge_screen) \<rparr>)
   \<and> map_option calls (Sync edge_screen) =
     Some [SetConsoleCursorInfo \<lparr> cu_size = 1, cu_visible = 0 \<rparr>,
           SetConsoleCursorPosition \<lparr> co_x = 0, co_y = 0 \<rparr>, SetConsoleTextAttribute 7,
           WriteConsole [0x20, 0x20, 0x20, 0x20],
           SetConsoleCursorInfo \<lparr> cu_size = 1, cu_visible = 0 \<rparr>]
   \<and> (\<exists>s' pre cs post runs. Sync edge_screen = Some s'
         \<and> calls s' = calls edge_screen @ pre @ cs @ post
         \<and> written (payloads cs) runs
         \<and> concat runs = [0x20, 0x20, 0x20, 0x20])"
proof -
  from edge_Sync obtain s' where s: "Sync edge_screen = Some s'" by auto
  with edge_Sync_text have
    t: "screen_text (GetContent (cells s')) (scr_w s') (scr_h s') 0 = [0x20, 0x20, 0x20, 0x20]"
    by simp
  note c = C3_Sync_is_Invalidate_then_Show [of edge_screen]
  from c s edge_fits edge_facts(5) obtain pre cs post runs where
    "calls s' = calls edge_screen @ pre @ cs @ post" "written (payloads cs) runs"
    "concat runs = screen_text (GetContent (cells s')) (scr_w s') (scr_h s') 0"
    by blast
  with s t have "\<exists>s' pre cs post runs. Sync edge_screen = Some s'
         \<and> calls s' = calls edge_screen @ pre @ cs @ post
         \<and> written (payloads cs) runs
         \<and> concat runs = [0x20, 0x20, 0x20, 0x20]"
    by auto
  with c edge_facts(5) edge_fits edge_Sync show ?thesis by simp
qed

end
